theory Spec2Isabelle
  imports Complex_Main
begin

section \<open>Python strings and integers\<close>

text \<open>
  A Python \<open>str\<close> is modelled as a \<open>string\<close> whose characters are the code points
  below 256 (Latin-1); code points above are outside the model. The character classes
  below are the ones Python uses for these code points.
\<close>

definition isdigit :: "char \<Rightarrow> bool" where
  \<comment> \<open>\<open>str.isdigit\<close> on one character: 0-9 and the superscripts U+00B2, U+00B3, U+00B9.\<close>
  "isdigit c = (let n = (of_char c :: nat) in (48 \<le> n \<and> n \<le> 57) \<or> n = 178 \<or> n = 179 \<or> n = 185)"

definition is_ascii_digit :: "char \<Rightarrow> bool" where
  \<comment> \<open>the regular expression class \<open>[0-9]\<close>\<close>
  "is_ascii_digit c = (let n = (of_char c :: nat) in 48 \<le> n \<and> n \<le> 57)"

definition is_ascii_letter :: "char \<Rightarrow> bool" where
  \<comment> \<open>the regular expression class \<open>[a-zA-Z]\<close>\<close>
  "is_ascii_letter c = (let n = (of_char c :: nat) in (65 \<le> n \<and> n \<le> 90) \<or> (97 \<le> n \<and> n \<le> 122))"

definition is_space :: "char \<Rightarrow> bool" where
  \<comment> \<open>the regular expression class \<open>\s\<close> of a \<open>str\<close> pattern, below code point 256\<close>
  "is_space c = (let n = (of_char c :: nat) in (9 \<le> n \<and> n \<le> 13) \<or> (28 \<le> n \<and> n \<le> 32) \<or> n = 133 \<or> n = 160)"

definition digit_char :: "nat \<Rightarrow> char" where
  "digit_char d = char_of (48 + d)"

fun str_nat :: "nat \<Rightarrow> string" where
  "str_nat n = (if n < 10 then [digit_char n] else str_nat (n div 10) @ [digit_char (n mod 10)])"

declare str_nat.simps [simp del]

definition str_int :: "int \<Rightarrow> string" where
  \<comment> \<open>\<open>str(i)\<close> for a Python int\<close>
  "str_int i = (if i < 0 then CHR ''-'' # str_nat (nat (- i)) else str_nat (nat i))"

definition zfill :: "nat \<Rightarrow> string \<Rightarrow> string" where
  \<comment> \<open>\<open>s.zfill(w)\<close>: zeros on the left, after a leading sign\<close>
  "zfill w s =
     (if w \<le> length s then s
      else case s of
             [] \<Rightarrow> replicate w CHR ''0''
           | c # cs \<Rightarrow>
               if c = CHR ''+'' \<or> c = CHR ''-'' then c # replicate (w - length s) CHR ''0'' @ cs
               else replicate (w - length s) CHR ''0'' @ s)"

fun str_join :: "string \<Rightarrow> string list \<Rightarrow> string" where
  \<comment> \<open>\<open>sep.join(xs)\<close>\<close>
  "str_join sep [] = []"
| "str_join sep [x] = x"
| "str_join sep (x # y # ys) = x @ sep @ str_join sep (y # ys)"

definition strip_char :: "char \<Rightarrow> string \<Rightarrow> string" where
  \<comment> \<open>\<open>s.strip(c)\<close> for a single character \<open>c\<close>\<close>
  "strip_char c s = rev (dropWhile (\<lambda>x. x = c) (rev (dropWhile (\<lambda>x. x = c) s)))"

function split_on :: "string \<Rightarrow> string \<Rightarrow> string \<Rightarrow> string list" where
  \<comment> \<open>\<open>s.split(sep)\<close> for a non-empty \<open>sep\<close>; \<open>acc\<close> holds the current piece, reversed\<close>
  "split_on sep acc s =
     (if s = [] then [rev acc]
      else if sep \<noteq> [] \<and> take (length sep) s = sep
           then rev acc # split_on sep [] (drop (length sep) s)
           else split_on sep (hd s # acc) (tl s))"
  by pat_completeness auto
termination
  by (relation "measure (\<lambda>(sep, acc, s). length s)") (auto simp: neq_Nil_conv)

declare split_on.simps [simp del]

definition str_split :: "string \<Rightarrow> string \<Rightarrow> string list" where
  "str_split s sep = split_on sep [] s"

function re_split_dash :: "string \<Rightarrow> string \<Rightarrow> string list" where
  \<comment> \<open>\<open>re.split(r'\s*-\s*', s)\<close>: each dash is matched with the white space around it\<close>
  "re_split_dash acc [] = [rev acc]"
| "re_split_dash acc (c # cs) =
     (if c = CHR ''-''
      then rev (dropWhile is_space acc) # re_split_dash [] (dropWhile is_space cs)
      else re_split_dash (c # acc) cs)"
  by pat_completeness auto
termination
  by (relation "measure (\<lambda>(acc, s). length s)")
     (auto simp: length_dropWhile_le le_imp_less_Suc)

function re_split_space :: "string \<Rightarrow> string \<Rightarrow> string list" where
  \<comment> \<open>\<open>re.split('\s+', s)\<close>\<close>
  "re_split_space acc [] = [rev acc]"
| "re_split_space acc (c # cs) =
     (if is_space c
      then rev acc # re_split_space [] (dropWhile is_space cs)
      else re_split_space (c # acc) cs)"
  by pat_completeness auto
termination
  by (relation "measure (\<lambda>(acc, s). length s)")
     (auto simp: length_dropWhile_le le_imp_less_Suc)

section \<open>The helper functions of \<open>form_new_linename\<close>\<close>

datatype py_error =
    IndexError
  | ValueError string string string
    \<comment> \<open>"Line number is not a number", with the three values printed before it is
        raised: \<open>route_number\<close>, \<open>line_number\<close>, \<open>line_code_suffix\<close>\<close>
  | TypeError
  | MathDomainError
    \<comment> \<open>the ValueError of \<open>math.sqrt\<close> for a negative number\<close>
  | AmbiguousTruthValue
    \<comment> \<open>the ValueError of numpy for the truth value of an empty array\<close>

definition includes_numbers :: "string \<Rightarrow> bool" where
  "includes_numbers s = list_ex isdigit s"

definition clean_line_code :: "string \<Rightarrow> string" where
  "clean_line_code s =
     (let cleaned = filter (\<lambda>c. is_ascii_letter c \<or> is_ascii_digit c) s;
          cleaned = filter (\<lambda>c. c \<noteq> CHR ''/'') cleaned
      in if take 3 cleaned = ''ELY'' then drop 3 cleaned else cleaned)"

definition trailing_letters :: "string \<Rightarrow> string" where
  "trailing_letters s = rev (takeWhile is_ascii_letter (rev s))"

definition remove_last_letters :: "string \<Rightarrow> string \<times> string \<times> string" where
  \<comment> \<open>returns \<open>(cleaned, prefix, suffix)\<close>; \<open>$\<close> also matches before a final newline\<close>
  "remove_last_letters s =
     (let t = trailing_letters s;
          suffix = (if t = [] \<and> s \<noteq> [] \<and> last s = CHR 0x0A
                    then trailing_letters (butlast s) else t);
          cleaned = take (length s - length suffix) s;
          prefix = takeWhile is_ascii_letter cleaned
      in (drop (length prefix) cleaned, prefix, suffix))"

definition digits_value :: "string \<Rightarrow> nat" where
  "digits_value s = foldl (\<lambda>a c. 10 * a + (of_char c - 48)) 0 s"

definition py_int :: "string \<Rightarrow> int option" where
  \<comment> \<open>\<open>int(s)\<close> for a string of ASCII letters and digits, the only strings the caller
      passes (the numeric core of a cleaned line code); \<open>None\<close> is the ValueError\<close>
  "py_int s = (if s \<noteq> [] \<and> list_all is_ascii_digit s then Some (int (digits_value s)) else None)"

text \<open>The variable \<open>line_number\<close> holds a \<open>str\<close> or an \<open>int\<close>, and so does the number
  stored in the history.\<close>

datatype lnum = LStr string | LInt int

fun lnum_str :: "lnum \<Rightarrow> string" where
  \<comment> \<open>\<open>str(line_number)\<close>\<close>
  "lnum_str (LStr s) = s"
| "lnum_str (LInt i) = str_int i"

type_synonym description = "string \<times> (lnum \<times> string) \<times> int"

definition split_route_name :: "string \<Rightarrow> py_error + (string \<times> string list)" where
  \<comment> \<open>lines 360 to 378: the route number and the remaining parts of the route name\<close>
  "split_route_name route_name =
     (let parts = re_split_dash [] route_name in
      if length parts < 2 then Inl IndexError
      else
        let starting_point = re_split_space [] (parts ! 1) in
        if length starting_point > 1 \<and> includes_numbers (parts ! 0) then
          let route_number = parts ! 0; parts = tl parts in
          if length starting_point > 2 then
            if includes_numbers (starting_point ! 0)
            then Inr (route_number, str_join '' '' (tl starting_point) # tl parts)
            else Inr (route_number, parts)
          else if includes_numbers (starting_point ! 0)
          then Inr (route_number, (starting_point ! 1) # tl parts)
          else Inr (route_number, (starting_point ! 0) # tl parts)
        else if includes_numbers (parts ! 0) then Inr (parts ! 0, tl parts)
        else if parts ! 0 = [] then Inr ([], tl parts)
        else Inr ([], parts))"

text \<open>The four conditions of the \<open>if\<close>/\<open>elif\<close> chain in the loop over the history.\<close>

definition same_stops :: "description \<Rightarrow> string \<Rightarrow> int \<Rightarrow> bool" where
  "same_stops used route dir_id =
     (case used of (used_route, used_linenumber, used_dir_id) \<Rightarrow>
        used_route = route \<and> used_dir_id \<noteq> dir_id)"

definition same_endpoints :: "description \<Rightarrow> string \<Rightarrow> string \<Rightarrow> string \<Rightarrow> int \<Rightarrow> bool" where
  "same_endpoints used cleaned_route route_number line_letter dir_id =
     (case used of (used_route, used_linenumber, used_dir_id) \<Rightarrow>
        strip_char CHR ''.'' (last (str_split used_route '' - ''))
          = strip_char CHR ''.'' (hd (str_split cleaned_route '' - ''))
        \<and> used_dir_id \<noteq> dir_id
        \<and> fst used_linenumber = LStr (clean_line_code route_number)
        \<and> line_letter = snd used_linenumber)"

definition same_number :: "description \<Rightarrow> string \<Rightarrow> string \<Rightarrow> bool" where
  "same_number used route_number line_letter =
     (case used of (used_route, used_linenumber, used_dir_id) \<Rightarrow>
        LStr (clean_line_code route_number) = fst used_linenumber
        \<and> line_letter = snd used_linenumber)"

fun scan_descriptions ::
  "description list \<Rightarrow> string \<Rightarrow> string \<Rightarrow> string \<Rightarrow> string \<Rightarrow> int
     \<Rightarrow> py_error + (lnum \<times> string \<times> string) option" where
  \<comment> \<open>the \<open>for\<close> loop over \<open>descriptions\<close>: \<open>Some (line_number, prefix, suffix)\<close> at a
      \<open>break\<close>, \<open>None\<close> when the loop ends without one (the \<open>else\<close> clause runs)\<close>
  "scan_descriptions [] cleaned_route reversed_route route_number line_letter dir_id = Inr None"
| "scan_descriptions (used # rest) cleaned_route reversed_route route_number line_letter dir_id =
     (if same_stops used cleaned_route dir_id then Inr (Some (fst (fst (snd used)), [], []))
      else if same_stops used reversed_route dir_id then Inr (Some (fst (fst (snd used)), [], []))
      else if same_endpoints used cleaned_route route_number line_letter dir_id
           then Inr (Some (fst (fst (snd used)), [], []))
      else if same_number used route_number line_letter then
        (case remove_last_letters (clean_line_code route_number) of
           (line_number, line_code_prefix, line_code_suffix) \<Rightarrow>
             if line_code_suffix = [] \<and> length line_number + length line_code_prefix < 4
             then Inr (Some (LStr line_number, line_code_prefix, ''B''))
             else (case py_int line_number of
                     None \<Rightarrow> Inl (ValueError route_number line_number line_code_suffix)
                   | Some k \<Rightarrow> Inr (Some (LInt (k + 1), line_code_prefix, line_code_suffix))))
      else scan_descriptions rest cleaned_route reversed_route route_number line_letter dir_id)"

definition recombine :: "lnum \<Rightarrow> string \<Rightarrow> string \<Rightarrow> string" where
  \<comment> \<open>lines 423 to 430: prefix and suffix put back around the number\<close>
  "recombine line_number line_code_prefix line_code_suffix =
     (if line_code_suffix \<noteq> [] \<and> line_code_prefix \<noteq> []
      then hd line_code_prefix # lnum_str line_number @ [hd line_code_suffix]
      else if line_code_prefix \<noteq> [] then hd line_code_prefix # lnum_str line_number
      else if line_code_suffix \<noteq> [] then lnum_str line_number @ [hd line_code_suffix]
      else lnum_str line_number)"

definition make_linename :: "string \<Rightarrow> nat \<Rightarrow> string \<Rightarrow> int \<Rightarrow> string" where
  \<comment> \<open>the f-string \<open>{line_letter}{str(line_number).zfill(n_to_fill)}{dir_id}\<close>\<close>
  "make_linename line_letter n_to_fill number dir_id =
     line_letter @ zfill n_to_fill number @ str_int dir_id"

section \<open>Decimal strings determine their number\<close>

lemma digits_value_snoc: "digits_value (s @ [c]) = 10 * digits_value s + (of_char c - 48)"
  by (simp add: digits_value_def)

lemma of_char_digit_char: "d < 10 \<Longrightarrow> of_char (digit_char d) = 48 + d"
  by (simp add: digit_char_def)

lemma digits_value_str_nat: "digits_value (str_nat n) = n"
proof (induction n rule: str_nat.induct)
  case (1 n)
  show ?case
  proof (cases "n < 10")
    case True
    then show ?thesis
      by (subst str_nat.simps) (simp add: digits_value_def of_char_digit_char)
  next
    case False
    with 1 show ?thesis
      by (subst str_nat.simps) (simp add: digits_value_snoc of_char_digit_char)
  qed
qed

lemma str_nat_not_Nil: "str_nat n \<noteq> []"
  by (subst str_nat.simps) simp

lemma is_ascii_digit_digit_char: "d < 10 \<Longrightarrow> is_ascii_digit (digit_char d)"
  by (simp add: is_ascii_digit_def of_char_digit_char)

lemma str_nat_digits: "list_all is_ascii_digit (str_nat n)"
proof (induction n rule: str_nat.induct)
  case (1 n)
  show ?case
  proof (cases "n < 10")
    case True
    then show ?thesis
      by (subst str_nat.simps) (simp add: is_ascii_digit_digit_char)
  next
    case False
    with 1 show ?thesis
      by (subst str_nat.simps) (simp add: is_ascii_digit_digit_char)
  qed
qed

lemma digits_value_zeros: "digits_value (replicate k CHR ''0'' @ s) = digits_value s"
  by (induction k) (simp_all add: digits_value_def)

text \<open>The integer a zero-filled decimal string stands for, used to tell line names apart.\<close>

definition int_value :: "string \<Rightarrow> int" where
  "int_value s = (case s of [] \<Rightarrow> 0 | c # cs \<Rightarrow> if c = CHR ''-'' then - int (digits_value cs) else int (digits_value s))"

lemma hd_str_nat: "is_ascii_digit (hd (str_nat n))"
  using str_nat_digits [of n] str_nat_not_Nil [of n]
  by (cases "str_nat n") simp_all

lemma ascii_digit_not_sign: "is_ascii_digit c \<Longrightarrow> c \<noteq> CHR ''-'' \<and> c \<noteq> CHR ''+''"
  by (auto simp: is_ascii_digit_def)

lemma int_value_zfill_str_int: "int_value (zfill w (str_int i)) = i"
proof (cases "i < 0")
  case True
  then show ?thesis
    by (simp add: zfill_def str_int_def int_value_def digits_value_zeros digits_value_str_nat)
next
  case False
  obtain c cs where s: "str_nat (nat i) = c # cs"
    using str_nat_not_Nil [of "nat i"] by (cases "str_nat (nat i)") auto
  have c: "c \<noteq> CHR ''-''" "c \<noteq> CHR ''+''"
    using hd_str_nat [of "nat i"] s ascii_digit_not_sign by auto
  have v: "digits_value (c # cs) = nat i"
    using digits_value_str_nat [of "nat i"] s by simp
  have z: "digits_value (replicate k CHR ''0'' @ c # cs) = nat i" for k
    using digits_value_zeros [of k "c # cs"] v by simp
  show ?thesis
  proof (cases "w \<le> length (c # cs)")
    case True
    with False s c v show ?thesis
      by (simp add: zfill_def str_int_def int_value_def)
  next
    case F2: False
    then obtain k where k: "w - length (c # cs) = Suc k"
      by (cases "w - length (c # cs)") auto
    with False F2 s c z [of "Suc k"] show ?thesis
      by (simp add: zfill_def str_int_def int_value_def)
  qed
qed

lemma zfill_str_int_inj: "zfill w (str_int a) = zfill w (str_int b) \<Longrightarrow> a = b"
  by (metis int_value_zfill_str_int)

lemma str_int_inj: "str_int a = str_int b \<Longrightarrow> a = b"
  using zfill_str_int_inj [of 0 a b] by (simp add: zfill_def)

lemma make_linename_inj:
  "make_linename l w (str_int a) d = make_linename l w (str_int b) d \<Longrightarrow> a = b"
  by (simp add: make_linename_def zfill_str_int_inj)

lemma finite_used_numbers: "finite {k. make_linename l w (str_int k) d \<in> set lnames}"
proof -
  have "inj (\<lambda>k. make_linename l w (str_int k) d)"
    by (rule injI) (rule make_linename_inj)
  then have "finite ((\<lambda>k. make_linename l w (str_int k) d) -` set lnames)"
    by (rule finite_vimageI [OF finite_set])
  then show ?thesis by (simp add: vimage_def)
qed


section \<open>The loop that redraws a line name in use\<close>

text \<open>
  Lines 433 to 436. The dictionary \<open>running_n\<close> is read and written at the key
  \<open>line_letter\<close> only, which line 357 has set: the loop carries that entry as \<open>counter\<close>.
  It ends because the names built from different counter values differ and \<open>lnames\<close> is
  finite.
\<close>

function redraw ::
  "string list \<Rightarrow> string \<Rightarrow> nat \<Rightarrow> int \<Rightarrow> int \<Rightarrow> lnum \<Rightarrow> string \<Rightarrow> lnum \<times> int \<times> string" where
  "redraw lnames line_letter n_to_fill dir_id counter line_number linename =
     (if linename \<in> set lnames
      then redraw lnames line_letter n_to_fill dir_id (counter + 1) (LInt counter)
             (make_linename line_letter n_to_fill (str_int counter) dir_id)
      else (line_number, counter, linename))"
  by pat_completeness auto
termination
proof (relation "measure (\<lambda>(lnames, l, w, d, c, ln, name).
          2 * card {k. c \<le> k \<and> make_linename l w (str_int k) d \<in> set lnames}
          + (if name \<in> set lnames then 1 else 0))", goal_cases)
  case 1
  show ?case by simp
next
  case (2 lnames l w d c ln name)
  let ?A = "{k. c \<le> k \<and> make_linename l w (str_int k) d \<in> set lnames}"
  let ?B = "{k. c + 1 \<le> k \<and> make_linename l w (str_int k) d \<in> set lnames}"
  have fin: "finite ?A"
    by (rule finite_subset [OF _ finite_used_numbers [of l w d lnames]]) auto
  have sub: "?B \<subseteq> ?A" by auto
  show ?case
  proof (cases "make_linename l w (str_int c) d \<in> set lnames")
    case True
    then have "c \<in> ?A" "c \<notin> ?B" by auto
    with sub have "?B \<subset> ?A" by blast
    then have "card ?B < card ?A" using fin by (rule psubset_card_mono [rotated])
    with 2 True show ?thesis by simp
  next
    case False
    have "card ?B \<le> card ?A" using sub fin by (simp add: card_mono)
    with 2 False show ?thesis by simp
  qed
qed

declare redraw.simps [simp del]

lemma redraw_fresh:
  "redraw lnames l w d c num name = (num', c', name') \<Longrightarrow> name' \<notin> set lnames"
proof (induction lnames l w d c num name rule: redraw.induct)
  case (1 lnames l w d c num name)
  show ?case
  proof (cases "name \<in> set lnames")
    case True
    with 1 show ?thesis by (subst (asm) (2) redraw.simps) simp
  next
    case False
    with 1(2) show ?thesis by (subst (asm) redraw.simps) simp
  qed
qed

section \<open>\<open>form_new_linename\<close>\<close>

definition form_new_linename ::
  "string \<Rightarrow> string \<Rightarrow> int \<Rightarrow> string list \<Rightarrow> (string \<rightharpoonup> int) \<Rightarrow> description list
     \<Rightarrow> py_error + (string \<times> string \<times> string list \<times> (string \<rightharpoonup> int) \<times> description list)" where
  \<comment> \<open>\<open>route_name\<close> is \<open>line['#route_name']\<close>. The result is the returned tuple
      \<open>(linename, cleaned_route, lnames, running_n, descriptions)\<close>; \<open>counter\<close> is
      \<open>running_n[line_letter]\<close>, written back into the dictionary at the end.\<close>
  "form_new_linename route_name line_letter dir_id lnames running_n descriptions =
     (let counter = (case running_n line_letter of None \<Rightarrow> 99 | Some c \<Rightarrow> c) in
      case split_route_name route_name of
        Inl e \<Rightarrow> Inl e
      | Inr (route_number, parts) \<Rightarrow>
          let cleaned_route = str_join '' - '' parts;
              reversed_route = str_join '' - '' (rev parts);
              n_to_fill = (if length line_letter = 2 then 3 else 4 :: nat)
          in case scan_descriptions descriptions cleaned_route reversed_route
                    route_number line_letter dir_id of
               Inl e \<Rightarrow> Inl e
             | Inr found \<Rightarrow>
                 let (line_number, line_code_prefix, line_code_suffix, counter) =
                       (case found of
                          Some (n, p, s) \<Rightarrow> (n, p, s, counter)
                        | None \<Rightarrow>
                            if route_number \<noteq> []
                            then (case remove_last_letters (clean_line_code route_number) of
                                    (n, p, s) \<Rightarrow> (LStr n, p, s, counter))
                            else (LInt counter, [], [], counter + 1));
                     line_number = LStr (recombine line_number line_code_prefix line_code_suffix);
                     linename = make_linename line_letter n_to_fill (lnum_str line_number) dir_id;
                     (line_number, counter, linename) =
                        redraw lnames line_letter n_to_fill dir_id counter line_number linename
                 in Inr (linename, cleaned_route, lnames @ [linename],
                         running_n(line_letter \<mapsto> counter),
                         descriptions @ [(cleaned_route, (line_number, line_letter), dir_id)]))"

fun form_new_linenames ::
  "(string \<times> string \<times> int) list \<Rightarrow> string list \<Rightarrow> (string \<rightharpoonup> int) \<Rightarrow> description list
     \<Rightarrow> py_error + (string list \<times> (string \<rightharpoonup> int) \<times> description list)" where
  \<comment> \<open>the successive calls of \<open>form_new_linename\<close> that the loop of \<open>change_line_names\<close>
      makes, for lines given by route name, line letter and direction id; the lists and
      the dictionary are handed from each call to the next\<close>
  "form_new_linenames [] lnames running_n descriptions = Inr (lnames, running_n, descriptions)"
| "form_new_linenames ((route_name, line_letter, dir_id) # rest) lnames running_n descriptions =
     (case form_new_linename route_name line_letter dir_id lnames running_n descriptions of
        Inl e \<Rightarrow> Inl e
      | Inr (linename, desc, lnames', running_n', descriptions') \<Rightarrow>
          form_new_linenames rest lnames' running_n' descriptions')"

definition no_match :: "description \<Rightarrow> string \<Rightarrow> string \<Rightarrow> string \<Rightarrow> string \<Rightarrow> int \<Rightarrow> bool" where
  \<comment> \<open>a history entry at which none of the four conditions of the loop holds\<close>
  "no_match used cleaned_route reversed_route route_number line_letter dir_id =
     (\<not> same_stops used cleaned_route dir_id \<and> \<not> same_stops used reversed_route dir_id
      \<and> \<not> same_endpoints used cleaned_route route_number line_letter dir_id
      \<and> \<not> same_number used route_number line_letter)"


section \<open>Area letter and direction of a line\<close>

text \<open>
  The coordinates are floating point numbers. Their arithmetic (numpy and \<open>math.sqrt\<close>) is
  not code of this program: the type \<open>'f\<close> of the numbers and the operations on it are
  parameters of the model, as are shapely's \<open>intersects\<close> and the truth value numpy gives an
  empty array.
\<close>

record 'f line_coords =
  \<comment> \<open>the row of \<open>df_line_coords\<close> selected by \<open>df["line"] == line_id\<close>\<close>
  ca_first_t :: int
  ca_last_t :: int
  xi :: 'f
  yi :: 'f
  xj :: 'f
  yj :: 'f

record 'f float_ops =
  f_of_int :: "int \<Rightarrow> 'f"
  f_sub :: "'f \<Rightarrow> 'f \<Rightarrow> 'f"
  f_square :: "'f \<Rightarrow> 'f"
  f_add :: "'f \<Rightarrow> 'f \<Rightarrow> 'f"
  f_sqrt :: "'f \<Rightarrow> py_error + 'f"
  f_gt :: "'f \<Rightarrow> 'f \<Rightarrow> bool"

record transit_line =
  line_id :: string
  mode_id :: string
  route_name :: string
  agency_name :: string
  description :: string

fun contains_str :: "string \<Rightarrow> string \<Rightarrow> bool" where
  \<comment> \<open>\<open>sub in s\<close>\<close>
  "contains_str sub [] = (sub = [])"
| "contains_str sub (c # cs) = (take (length sub) (c # cs) = sub \<or> contains_str sub cs)"

definition dict_values :: "(string \<times> string) list \<Rightarrow> string \<Rightarrow> bool" where
  \<comment> \<open>\<open>v in d.values()\<close> for a dictionary given as an association list\<close>
  "dict_values d v = list_ex (\<lambda>(k, v'). v' = v \<and> map_of d k = Some v) d"

fun zone_loop ::
  "('f \<times> 'f \<Rightarrow> 'g \<Rightarrow> bool) \<Rightarrow> py_error + bool \<Rightarrow> 'f line_coords option \<Rightarrow> 'g list \<Rightarrow> string
     \<Rightarrow> (string \<times> string) list \<Rightarrow> (string \<rightharpoonup> string) list \<Rightarrow> nat \<Rightarrow> string list
     \<Rightarrow> py_error + string" where
  \<comment> \<open>lines 254 to 265: the loop over \<open>enumerate(features)\<close>, from \<open>index\<close> on, and the
      final \<open>return "V"\<close>. A feature is given by its \<open>properties\<close>; \<open>geoms\<close> is
      \<open>geometries.geoms\<close>; \<open>sel\<close> is the row of the line in \<open>df\<close>, from which \<open>p1\<close> and
      \<open>p2\<close> are made, or \<open>None\<close> when \<open>df\<close> has no row for the line: then \<open>p1\<close> and \<open>p2\<close> are
      empty, and \<open>empty_truth\<close> is what the \<open>if\<close> reads from the empty result of
      \<open>intersects\<close> (\<open>False\<close>, or an error in later versions of numpy).\<close>
  "zone_loop intersects empty_truth sel geoms muni_name_col muni_short_codes [] index muniname
     = Inr ''V''"
| "zone_loop intersects empty_truth sel geoms muni_name_col muni_short_codes (properties # rest)
       index muniname =
     (if length geoms \<le> index then Inl IndexError
      else
        case (case sel of
                None \<Rightarrow> empty_truth
              | Some df \<Rightarrow> Inr (intersects (xi df, yi df) (geoms ! index)
                               \<or> intersects (xj df, yj df) (geoms ! index))) of
          Inl e \<Rightarrow> Inl e
        | Inr hit \<Rightarrow>
            case (if hit
                  then (case properties muni_name_col of
                          None \<Rightarrow> None
                        | Some name \<Rightarrow>
                            (case map_of muni_short_codes name of
                               None \<Rightarrow> None
                             | Some code \<Rightarrow> Some (muniname @ [code])))
                  else Some muniname) of
              None \<Rightarrow> Inr ''V''
            | Some muniname \<Rightarrow>
                if length muniname = 2
                then (if muniname ! 0 = muniname ! 1 \<and> dict_values muni_short_codes (muniname ! 0)
                      then Inr (muniname ! 0) else Inr ''V'')
                else zone_loop intersects empty_truth sel geoms muni_name_col muni_short_codes
                       rest (index + 1) muniname)"

definition get_operator_name ::
  "('f \<times> 'f \<Rightarrow> 'g \<Rightarrow> bool) \<Rightarrow> py_error + bool \<Rightarrow> (string \<rightharpoonup> 'f line_coords) \<Rightarrow> transit_line
     \<Rightarrow> (string \<rightharpoonup> string) list \<Rightarrow> 'g list \<Rightarrow> string \<Rightarrow> (string \<times> string) list
     \<Rightarrow> py_error + string" where
  \<comment> \<open>\<open>None\<close> from a dictionary is the KeyError that the \<open>except\<close> clause turns into
      \<open>break\<close>\<close>
  "get_operator_name intersects empty_truth df line features geoms muni_name_col muni_short_codes =
     (if contains_str ''OnniBus'' (agency_name line) then Inr ''O''
      else zone_loop intersects empty_truth (df (line_id line)) geoms muni_name_col
             muni_short_codes features 0 [])"

definition get_direction_id ::
  "'f float_ops \<Rightarrow> (string \<rightharpoonup> 'f line_coords) \<Rightarrow> string \<Rightarrow> py_error + int" where
  \<comment> \<open>\<open>lid\<close> is the parameter \<open>line_id\<close>; \<open>int(...)\<close> of the empty selection of a line that
      \<open>df\<close> does not have is a TypeError\<close>
  "get_direction_id ops df lid =
     (case df lid of
        None \<Rightarrow> Inl TypeError
      | Some row \<Rightarrow>
          if ca_first_t row = ca_last_t row then Inr 3
          else
            let hel_x = f_of_int ops 25496699; hel_y = f_of_int ops 6673208 in
            case f_sqrt ops (f_add ops (f_square ops (f_sub ops hel_x (xi row)))
                                       (f_square ops (f_sub ops hel_y (yi row)))) of
              Inl e \<Rightarrow> Inl e
            | Inr start_diff \<Rightarrow>
                (case f_sqrt ops (f_add ops (f_square ops (f_sub ops hel_x (xj row)))
                                            (f_square ops (f_sub ops hel_y (yj row)))) of
                   Inl e \<Rightarrow> Inl e
                 | Inr end_diff \<Rightarrow> Inr (if f_gt ops start_diff end_diff then 2 else 1)))"

section \<open>\<open>change_line_names\<close>\<close>

record dev_config =
  vehicle_ids :: "string \<rightharpoonup> int"
  muni_col_name :: string
  muni_short_codes :: "(string \<times> string) list"

text \<open>What \<open>change_line_names\<close> does to the scenario and to the lines of the network object
  it works on, in the order in which it does it.\<close>

datatype event =
    GetNetwork
    \<comment> \<open>\<open>scenario.get_network()\<close>\<close>
  | SetId string string
    \<comment> \<open>\<open>line.id = linename\<close>: the id the line had, and the new one\<close>
  | SetDescription string string
    \<comment> \<open>\<open>line.description = ...\<close>: the id of the line, and the text\<close>
  | PublishNetwork "transit_line list"
    \<comment> \<open>\<open>scenario.publish_network(network)\<close>, with the lines of \<open>network\<close>\<close>

fun is_publish :: "event \<Rightarrow> bool" where
  "is_publish (PublishNetwork network) = True"
| "is_publish e = False"

definition new_description :: "string \<Rightarrow> string" where
  \<comment> \<open>lines 203 to 212\<close>
  "new_description desc =
     (let re_short_route_name = re_split_dash [] desc;
          short_route_name = str_split desc ''-''
      in if hd short_route_name \<noteq> '' ''
         then take 115 (str_join ''-'' re_short_route_name)
         else take 115 (str_join ''-'' (tl re_short_route_name)))"

fun rename_loop ::
  "('f \<times> 'f \<Rightarrow> 'g \<Rightarrow> bool) \<Rightarrow> py_error + bool \<Rightarrow> 'f float_ops \<Rightarrow> dev_config
     \<Rightarrow> (string \<rightharpoonup> 'f line_coords) \<Rightarrow> (string \<rightharpoonup> string) list \<Rightarrow> 'g list \<Rightarrow> transit_line list
     \<Rightarrow> string list \<Rightarrow> (string \<rightharpoonup> int) \<Rightarrow> description list
     \<Rightarrow> event list \<times> (py_error + transit_line list)" where
  \<comment> \<open>lines 193 to 212: the loop over \<open>tlines\<close>. The result is the assignments made, in
      order, and the exception that ended the loop or the lines of the network after it.\<close>
  "rename_loop intersects empty_truth ops dev_config df_line_coords features geoms []
       lnames running_n descriptions = ([], Inr [])"
| "rename_loop intersects empty_truth ops dev_config df_line_coords features geoms (line # rest)
       lnames running_n descriptions =
     (if vehicle_ids dev_config (mode_id line) \<noteq> None then
        (case get_operator_name intersects empty_truth df_line_coords line features geoms
                (muni_col_name dev_config) (muni_short_codes dev_config) of
           Inl e \<Rightarrow> ([], Inl e)
         | Inr line_letter \<Rightarrow>
            (case get_direction_id ops df_line_coords (line_id line) of
               Inl e \<Rightarrow> ([], Inl e)
             | Inr dir_id \<Rightarrow>
                (case form_new_linename (route_name line) line_letter dir_id
                        lnames running_n descriptions of
                   Inl e \<Rightarrow> ([], Inl e)
                 | Inr (linename, desc, lnames', running_n', descriptions') \<Rightarrow>
                    (case rename_loop intersects empty_truth ops dev_config df_line_coords
                            features geoms rest lnames' running_n' descriptions' of
                       (events, r) \<Rightarrow>
                         (SetId (line_id line) linename
                            # SetDescription linename (new_description desc) # events,
                          case r of
                            Inl e \<Rightarrow> Inl e
                          | Inr rest' \<Rightarrow>
                              Inr (line\<lparr>line_id := linename,
                                         description := new_description desc\<rparr> # rest'))))))
      else
        (case rename_loop intersects empty_truth ops dev_config df_line_coords features geoms rest
                lnames running_n descriptions of
           (events, r) \<Rightarrow>
             (events, case r of Inl e \<Rightarrow> Inl e | Inr rest' \<Rightarrow> Inr (line # rest'))))"

definition change_line_names ::
  "('f \<times> 'f \<Rightarrow> 'g \<Rightarrow> bool) \<Rightarrow> py_error + bool \<Rightarrow> 'f float_ops \<Rightarrow> transit_line list
     \<Rightarrow> dev_config \<Rightarrow> (string \<rightharpoonup> 'f line_coords) \<Rightarrow> (string \<rightharpoonup> string) list \<Rightarrow> 'g list
     \<Rightarrow> event list \<times> (py_error + unit)" where
  \<comment> \<open>\<open>network\<close> is the lines of the network object that \<open>scenario.get_network()\<close> returns.
      The result is everything done to the scenario and to the lines, in order, and the
      exception that ended the function, if any.\<close>
  "change_line_names intersects empty_truth ops network dev_config df_line_coords features geoms =
     (case rename_loop intersects empty_truth ops dev_config df_line_coords features geoms
             network [] Map.empty [] of
        (events, Inl e) \<Rightarrow> (GetNetwork # events, Inl e)
      | (events, Inr network') \<Rightarrow>
          (GetNetwork # events @ [PublishNetwork network'], Inr ()))"

section \<open>The route name needs a dash\<close>

lemma re_split_dash_not_Nil: "re_split_dash acc s \<noteq> []"
  by (induction acc s rule: re_split_dash.induct) auto

lemma re_split_dash_no_dash: "CHR ''-'' \<notin> set s \<Longrightarrow> re_split_dash acc s = [rev acc @ s]"
  by (induction s arbitrary: acc) auto

lemma re_split_dash_dash: "CHR ''-'' \<in> set s \<Longrightarrow> 2 \<le> length (re_split_dash acc s)"
proof (induction acc s rule: re_split_dash.induct)
  case (1 acc)
  then show ?case by simp
next
  case (2 acc c cs)
  show ?case
  proof (cases "c = CHR ''-''")
    case True
    have "re_split_dash [] (dropWhile is_space cs) \<noteq> []"
      by (rule re_split_dash_not_Nil)
    then have "1 \<le> length (re_split_dash [] (dropWhile is_space cs))"
      by (cases "re_split_dash [] (dropWhile is_space cs)") auto
    with True show ?thesis by simp
  next
    case False
    with 2 show ?thesis by simp
  qed
qed

text \<open>
  Claim C10. \<open>form_new_linename\<close> reads \<open>parts[1]\<close> (line 362) before it checks that the
  split of the route name has a second segment. The split gives a single segment exactly
  when the route name has no dash, and for every such route name the call ends with
  IndexError, whatever the line letter, the direction and the state are: no number token
  is extracted and no identifier is produced.
\<close>

theorem route_name_without_dash_IndexError:
  "(length (re_split_dash [] raw) = 1) = (CHR ''-'' \<notin> set raw)
   \<and> (CHR ''-'' \<notin> set raw \<longrightarrow>
        form_new_linename raw line_letter dir_id lnames running_n descriptions
          = Inl IndexError)"
proof (intro conjI impI)
  show "(length (re_split_dash [] raw) = 1) = (CHR ''-'' \<notin> set raw)"
    using re_split_dash_dash [of raw "[]"] re_split_dash_no_dash [of raw "[]"]
    by auto
next
  assume "CHR ''-'' \<notin> set raw"
  then have "re_split_dash [] raw = [raw]"
    using re_split_dash_no_dash [of raw "[]"] by simp
  then have "split_route_name raw = Inl IndexError"
    by (simp add: split_route_name_def)
  then show "form_new_linename raw line_letter dir_id lnames running_n descriptions
          = Inl IndexError"
    by (simp add: form_new_linename_def)
qed

theorem route_name_without_dash_IndexError_witness:
  "length (re_split_dash [] ''Helsinki Lahti'') = 1
   \<and> form_new_linename ''Helsinki Lahti'' ''V'' 1 [] Map.empty [] = Inl IndexError"
  using route_name_without_dash_IndexError [of "''Helsinki Lahti''" "''V''" 1 "[]" Map.empty "[]"]
  by simp


section \<open>Double precision numbers\<close>

text \<open>
  The coordinates are IEEE 754 double precision numbers, and numpy and \<open>math.sqrt\<close> compute
  on them: each operation gives the exact result rounded to the nearest double, ties to
  the even one, and infinity beyond the largest double. A double is given here by the
  real number it stands for; the two zeros are not told apart.
\<close>

datatype f64 = Finite real | PInf | NInf | NaN

definition round_half_even :: "real \<Rightarrow> int" where
  "round_half_even x =
     (let n = \<lfloor>x\<rfloor>; r = x - of_int n
      in if r < 1 / 2 then n else if 1 / 2 < r then n + 1 else if even n then n else n + 1)"

definition f64_limit :: real where
  "f64_limit = 2 ^ 1024"

definition round64 :: "real \<Rightarrow> f64" where
  "round64 x =
     (if x = 0 then Finite 0
      else
        let e = max \<lfloor>log 2 \<bar>x\<bar>\<rfloor> (- 1022);
            q = 2 powr (of_int e - 52);
            r = of_int (round_half_even (x / q)) * q
        in if f64_limit \<le> \<bar>r\<bar> then (if 0 < x then PInf else NInf) else Finite r)"

lemma round_half_even_below:
  assumes "0 \<le> d" "d < 1 / 2"
  shows "round_half_even (of_int m + d) = m"
proof -
  have "\<lfloor>of_int m + d\<rfloor> = m" using assms by (simp add: floor_unique)
  with assms show ?thesis by (simp add: round_half_even_def)
qed

lemma round_half_even_int: "round_half_even (of_int m) = m"
  using round_half_even_below [of 0 m] by simp

lemma round_half_even_nonneg: "0 \<le> x \<Longrightarrow> 0 \<le> round_half_even x"
  by (auto simp: round_half_even_def Let_def)

lemma floor_log2:
  assumes "2 powr of_int k \<le> x" "x < 2 powr (of_int k + 1)"
  shows "\<lfloor>log 2 x\<rfloor> = k"
proof -
  have "0 < (2::real) powr of_int k" by simp
  with assms(1) have pos: "0 < x" by linarith
  have "of_int k \<le> log 2 x" using assms(1) pos by (simp add: le_log_iff)
  moreover have "log 2 x < of_int k + 1" using assms(2) pos by (simp add: log_less_iff)
  ultimately show ?thesis by (simp add: floor_unique)
qed

lemma f64_limit_53: "(2::real) ^ 53 \<le> f64_limit"
  unfolding f64_limit_def by (rule power_increasing) simp_all

lemma round64_scale:
  fixes y :: real
  assumes lo: "2 ^ 52 \<le> y" and hi: "y < 2 ^ 53" and n: "n \<le> 1074"
  shows "(2::real) powr (of_int (max \<lfloor>log 2 (y / 2 ^ n)\<rfloor> (- 1022)) - 52) = 1 / 2 ^ n"
proof -
  have p: "(2::real) powr (of_int (52 - int n)) = 2 ^ 52 / 2 ^ n"
    by (simp add: powr_diff powr_realpow)
  have p1: "(2::real) powr (of_int (52 - int n) + 1) = 2 ^ 53 / 2 ^ n"
    by (simp add: powr_diff powr_realpow powr_add)
  have l: "2 powr of_int (52 - int n) \<le> y / 2 ^ n"
    unfolding p by (rule divide_right_mono) (use lo in simp_all)
  have h: "y / 2 ^ n < 2 powr (of_int (52 - int n) + 1)"
    unfolding p1 by (rule divide_strict_right_mono) (use hi in simp_all)
  have fl: "\<lfloor>log 2 (y / 2 ^ n)\<rfloor> = 52 - int n"
    using l h by (rule floor_log2)
  have e: "max \<lfloor>log 2 (y / 2 ^ n)\<rfloor> (- 1022) = 52 - int n"
    unfolding fl using n by simp
  show ?thesis
    unfolding e by (simp add: powr_minus powr_realpow field_simps)
qed

lemma below_limit:
  fixes y :: real
  assumes "0 \<le> y" "y \<le> 2 ^ 53"
  shows "\<not> f64_limit \<le> \<bar>y * (1 / 2 ^ n)\<bar>"
proof -
  have "(1::real) \<le> 2 ^ n" by (rule one_le_power) simp
  then have "y / 2 ^ n \<le> y"
    using assms(1) by (simp add: field_simps mult_le_cancel_left1)
  then have "\<bar>y * (1 / 2 ^ n)\<bar> \<le> y" using assms(1) by simp
  also have "\<dots> \<le> 2 ^ 53" by (rule assms(2))
  finally have "\<bar>y * (1 / 2 ^ n)\<bar> \<le> 2 ^ 53" .
  moreover have "(2::real) ^ 53 < f64_limit"
    unfolding f64_limit_def by (rule power_strict_increasing) simp_all
  ultimately show ?thesis by linarith
qed

lemma round64_near:
  fixes x d :: real
  assumes x: "x * 2 ^ n = of_int m + d" and d: "0 \<le> d" "d < 1 / 2"
    and m: "2 ^ 52 \<le> m" "m < 2 ^ 53" and n: "n \<le> 1074"
  shows "round64 x = Finite (of_int m / 2 ^ n)"
proof -
  let ?y = "of_int m + d :: real"
  have xe: "x = ?y / 2 ^ n" using x by (simp add: field_simps)
  have "(of_int (2 ^ 52) :: real) \<le> of_int m" using m(1) by (simp only: of_int_le_iff)
  then have m52: "(2::real) ^ 52 \<le> of_int m" by simp
  have "m + 1 \<le> 2 ^ 53" using m(2) by simp
  then have "(of_int (m + 1) :: real) \<le> of_int (2 ^ 53)" by (simp only: of_int_le_iff)
  then have m1: "of_int m + 1 \<le> (2::real) ^ 53" by simp
  have lo: "2 ^ 52 \<le> ?y" using m52 d(1) by linarith
  have hi: "?y < 2 ^ 53" using m1 d(2) by linarith
  have ypos: "0 < ?y" using lo by (rule less_le_trans [rotated]) simp
  have pos: "0 < x" unfolding xe using ypos by simp
  have ax: "\<bar>x\<bar> = ?y / 2 ^ n" using pos xe by (simp only: abs_of_pos)
  have q: "(2::real) powr (of_int (max \<lfloor>log 2 \<bar>x\<bar>\<rfloor> (- 1022)) - 52) = 1 / 2 ^ n"
    unfolding ax using lo hi n by (rule round64_scale)
  have xq: "x / (1 / 2 ^ n) = of_int m + d" using x by simp
  have r: "round_half_even (of_int m + d) = m" using d by (rule round_half_even_below)
  have "0 \<le> (of_int m :: real)" using m52 by (rule order_trans [rotated]) simp
  moreover have "(of_int m :: real) \<le> 2 ^ 53" using m1 by linarith
  ultimately have small: "\<not> f64_limit \<le> \<bar>(of_int m :: real) * (1 / 2 ^ n)\<bar>"
    by (rule below_limit)
  have nz: "x \<noteq> 0" using pos by simp
  show ?thesis
    unfolding round64_def Let_def q xq r
    using nz small by simp
qed

lemma round64_exact:
  fixes x :: real
  assumes x: "x * 2 ^ n = of_int m" and m: "2 ^ 52 \<le> \<bar>m\<bar>" "\<bar>m\<bar> < 2 ^ 53" and n: "n \<le> 1074"
  shows "round64 x = Finite x"
proof -
  let ?y = "of_int \<bar>m\<bar> :: real"
  have xe: "x = of_int m / 2 ^ n" using x by (simp add: field_simps)
  have "(of_int (2 ^ 52) :: real) \<le> of_int \<bar>m\<bar>" using m(1) by (simp only: of_int_le_iff)
  then have lo: "(2::real) ^ 52 \<le> ?y" by simp
  have "(of_int \<bar>m\<bar> :: real) < of_int (2 ^ 53)" using m(2) by (simp only: of_int_less_iff)
  then have hi: "?y < 2 ^ 53" by simp
  have ax: "\<bar>x\<bar> = ?y / 2 ^ n" unfolding xe by simp
  have q: "(2::real) powr (of_int (max \<lfloor>log 2 \<bar>x\<bar>\<rfloor> (- 1022)) - 52) = 1 / 2 ^ n"
    unfolding ax using lo hi n by (rule round64_scale)
  have xq: "x / (1 / 2 ^ n) = of_int m" using x by simp
  have "0 \<le> ?y" by simp
  moreover have "?y \<le> 2 ^ 53" using hi by linarith
  ultimately have "\<not> f64_limit \<le> \<bar>?y * (1 / 2 ^ n)\<bar>" by (rule below_limit)
  then have small: "\<not> f64_limit \<le> \<bar>(of_int m :: real) * (1 / 2 ^ n)\<bar>"
    by (simp add: abs_mult)
  have "m \<noteq> 0" using m(1) by auto
  then have nz: "x \<noteq> 0" unfolding xe by simp
  have same: "(of_int m :: real) * (1 / 2 ^ n) = x" unfolding xe by simp
  have small': "\<not> f64_limit \<le> \<bar>x\<bar>" using small unfolding same .
  show ?thesis
    unfolding round64_def Let_def q xq round_half_even_int same
    using nz small' by simp
qed

fun f64_sub :: "f64 \<Rightarrow> f64 \<Rightarrow> f64" where
  "f64_sub (Finite x) (Finite y) = round64 (x - y)"
| "f64_sub NaN b = NaN"
| "f64_sub a NaN = NaN"
| "f64_sub PInf PInf = NaN"
| "f64_sub NInf NInf = NaN"
| "f64_sub PInf b = PInf"
| "f64_sub NInf b = NInf"
| "f64_sub a PInf = NInf"
| "f64_sub a NInf = PInf"

fun f64_add :: "f64 \<Rightarrow> f64 \<Rightarrow> f64" where
  "f64_add (Finite x) (Finite y) = round64 (x + y)"
| "f64_add NaN b = NaN"
| "f64_add a NaN = NaN"
| "f64_add PInf NInf = NaN"
| "f64_add NInf PInf = NaN"
| "f64_add PInf b = PInf"
| "f64_add NInf b = NInf"
| "f64_add a PInf = PInf"
| "f64_add a NInf = NInf"

fun f64_square :: "f64 \<Rightarrow> f64" where
  "f64_square (Finite x) = round64 (x * x)"
| "f64_square NaN = NaN"
| "f64_square a = PInf"

fun f64_root :: "f64 \<Rightarrow> f64" where
  "f64_root (Finite x) = round64 (sqrt x)"
| "f64_root PInf = PInf"
| "f64_root a = NaN"

fun f64_sqrt :: "f64 \<Rightarrow> py_error + f64" where
  \<comment> \<open>\<open>math.sqrt\<close>: a ValueError for a negative number\<close>
  "f64_sqrt (Finite x) = (if x < 0 then Inl MathDomainError else Inr (round64 (sqrt x)))"
| "f64_sqrt NInf = Inl MathDomainError"
| "f64_sqrt a = Inr (f64_root a)"

fun f64_gt :: "f64 \<Rightarrow> f64 \<Rightarrow> bool" where
  "f64_gt (Finite x) (Finite y) = (y < x)"
| "f64_gt NaN b = False"
| "f64_gt a NaN = False"
| "f64_gt PInf PInf = False"
| "f64_gt PInf b = True"
| "f64_gt a NInf = (a \<noteq> NInf)"
| "f64_gt a b = False"

definition f64_of_int :: "int \<Rightarrow> f64" where
  "f64_of_int i = round64 (of_int i)"

definition ieee64 :: "f64 float_ops" where
  "ieee64 = \<lparr>f_of_int = f64_of_int, f_sub = f64_sub, f_square = f64_square, f_add = f64_add,
              f_sqrt = f64_sqrt, f_gt = f64_gt\<rparr>"

definition f64_distance :: "f64 \<times> f64 \<Rightarrow> f64" where
  \<comment> \<open>the distance from the reference point, as computed in double precision\<close>
  "f64_distance p =
     f64_root (f64_add (f64_square (f64_sub (f64_of_int 25496699) (fst p)))
                       (f64_square (f64_sub (f64_of_int 6673208) (snd p))))"

fun not_negative :: "f64 \<Rightarrow> bool" where
  "not_negative (Finite x) = (0 \<le> x)"
| "not_negative NInf = False"
| "not_negative a = True"

lemma round64_not_negative: "0 \<le> x \<Longrightarrow> not_negative (round64 x)"
proof (cases "x = 0")
  case True
  then show ?thesis by (simp add: round64_def)
next
  case False
  assume "0 \<le> x"
  with False have pos: "0 < x" by simp
  let ?q = "2 powr (of_int (max \<lfloor>log 2 \<bar>x\<bar>\<rfloor> (- 1022)) - 52) :: real"
  have "0 < ?q" by simp
  then have "0 \<le> x / ?q" using pos by simp
  then have "0 \<le> round_half_even (x / ?q)" by (rule round_half_even_nonneg)
  then have "0 \<le> (of_int (round_half_even (x / ?q)) :: real) * ?q" by simp
  then show ?thesis
    using pos False by (simp add: round64_def Let_def)
qed

lemma f64_square_not_negative: "not_negative (f64_square a)"
  by (cases a) (simp_all add: round64_not_negative)

lemma f64_add_not_negative:
  "not_negative a \<Longrightarrow> not_negative b \<Longrightarrow> not_negative (f64_add a b)"
  by (cases a; cases b) (simp_all add: round64_not_negative)

lemma f64_sqrt_root: "not_negative a \<Longrightarrow> f64_sqrt a = Inr (f64_root a)"
  by (cases a) simp_all

lemma ieee64_distance:
  "f_sqrt ieee64 (f_add ieee64 (f_square ieee64 (f_sub ieee64 (f_of_int ieee64 25496699) x))
                               (f_square ieee64 (f_sub ieee64 (f_of_int ieee64 6673208) y)))
     = Inr (f64_distance (x, y))"
  by (simp add: ieee64_def f64_distance_def f64_sqrt_root f64_add_not_negative
        f64_square_not_negative)

section \<open>The direction of a line\<close>

lemma get_direction_id_ieee64:
  "get_direction_id ieee64 df lid =
     (case df lid of
        None \<Rightarrow> Inl TypeError
      | Some row \<Rightarrow>
          Inr (if ca_first_t row = ca_last_t row then 3
               else if f64_gt (f64_distance (xi row, yi row)) (f64_distance (xj row, yj row))
                    then 2 else 1))"
  by (simp add: get_direction_id_def Let_def ieee64_distance split: option.splits)
     (simp add: ieee64_def)

lemma round64_values:
  "round64 25496699 = Finite 25496699"
  "round64 6673208 = Finite 6673208"
  "round64 (- 1) = Finite (- 1)"
  "round64 (- 2) = Finite (- 2)"
  "round64 1 = Finite 1"
  "round64 2 = Finite 2"
  "round64 4 = Finite 4"
  "round64 (- (1 / 2 ^ 30)) = Finite (- (1 / 2 ^ 30))"
  "round64 (1 / 2 ^ 60) = Finite (1 / 2 ^ 60)"
  "round64 (1 + 1 / 2 ^ 60) = Finite 1"
proof -
  show "round64 25496699 = Finite 25496699"
    by (rule round64_exact [where n = 28 and m = "25496699 * 2 ^ 28"]) simp_all
  show "round64 6673208 = Finite 6673208"
    by (rule round64_exact [where n = 30 and m = "6673208 * 2 ^ 30"]) simp_all
  show "round64 (- 1) = Finite (- 1)"
    by (rule round64_exact [where n = 52 and m = "- (2 ^ 52)"]) simp_all
  show "round64 (- 2) = Finite (- 2)"
    by (rule round64_exact [where n = 51 and m = "- (2 ^ 52)"]) simp_all
  show "round64 1 = Finite 1"
    by (rule round64_exact [where n = 52 and m = "2 ^ 52"]) simp_all
  show "round64 2 = Finite 2"
    by (rule round64_exact [where n = 51 and m = "2 ^ 52"]) simp_all
  show "round64 4 = Finite 4"
    by (rule round64_exact [where n = 50 and m = "2 ^ 52"]) simp_all
  show "round64 (- (1 / 2 ^ 30)) = Finite (- (1 / 2 ^ 30))"
    by (rule round64_exact [where n = 82 and m = "- (2 ^ 52)"]) simp_all
  show "round64 (1 / 2 ^ 60) = Finite (1 / 2 ^ 60)"
    by (rule round64_exact [where n = 112 and m = "2 ^ 52"]) simp_all
  have "round64 (1 + 1 / 2 ^ 60) = Finite (of_int (2 ^ 52) / 2 ^ 52)"
    by (rule round64_near [where d = "1 / 2 ^ 8"]) simp_all
  then show "round64 (1 + 1 / 2 ^ 60) = Finite 1" by simp
qed

lemma f64_distance_values:
  "f64_distance (Finite 25496700, Finite 6673208) = Finite 1"
  "f64_distance (Finite 25496701, Finite 6673208) = Finite 2"
  "f64_distance (Finite 25496700, Finite (6673208 + 1 / 2 ^ 30)) = Finite 1"
proof -
  have z: "round64 0 = Finite 0" by (simp add: round64_def)
  have a: "(25496699::real) - 25496700 = - 1" "(25496699::real) - 25496701 = - 2"
    "(6673208::real) - (6673208 + 1 / 2 ^ 30) = - (1 / 2 ^ 30)"
    "(1 / 2 ^ 30) * (1 / 2 ^ 30) = (1 / 2 ^ 60 :: real)"
    by simp_all
  show "f64_distance (Finite 25496700, Finite 6673208) = Finite 1"
    by (simp add: f64_distance_def f64_of_int_def round64_values z a)
  show "f64_distance (Finite 25496701, Finite 6673208) = Finite 2"
    by (simp add: f64_distance_def f64_of_int_def round64_values z a)
  show "f64_distance (Finite 25496700, Finite (6673208 + 1 / 2 ^ 30)) = Finite 1"
    by (simp only: f64_distance_def f64_of_int_def fst_conv snd_conv of_int_numeral
          round64_values f64_sub.simps f64_square.simps f64_add.simps f64_root.simps a
          mult_minus_left mult_minus_right minus_minus mult_1 real_sqrt_one)
qed

text \<open>
  Claim C6, as the code has it. For a line that has a row in the table of coordinates,
  \<open>get_direction_id\<close> returns 3 whenever the first and the last node of the line are the
  same node, whatever the coordinates are. Otherwise it returns 2 exactly when the
  distance from the reference point (25496699, 6673208) to the start of the line, as
  computed in double precision (each difference, square, sum and square root rounded),
  is greater than the distance computed for the end of the line, and 1 in every other
  case: when the computed distances are equal, also where the exact distances differ, and
  when a coordinate is not a number. The square root never fails.
\<close>

theorem get_direction_id_double:
  "get_direction_id ieee64 df lid =
     (case df lid of
        None \<Rightarrow> Inl TypeError
      | Some row \<Rightarrow>
          Inr (if ca_first_t row = ca_last_t row then 3
               else if f64_gt (f64_distance (xi row, yi row)) (f64_distance (xj row, yj row))
                    then 2 else 1))"
  by (rule get_direction_id_ieee64)

theorem get_direction_id_double_witness:
  "get_direction_id ieee64
      [''100'' \<mapsto> \<lparr>ca_first_t = 7, ca_last_t = 7, xi = NaN, yi = PInf,
                    xj = Finite 25496700, yj = Finite 6673208\<rparr>] ''100'' = Inr 3
   \<and> get_direction_id ieee64
      [''100'' \<mapsto> \<lparr>ca_first_t = 7, ca_last_t = 8, xi = Finite 25496701, yi = Finite 6673208,
                    xj = Finite 25496700, yj = Finite 6673208\<rparr>] ''100'' = Inr 2
   \<and> get_direction_id ieee64
      [''100'' \<mapsto> \<lparr>ca_first_t = 7, ca_last_t = 8, xi = Finite 25496700, yi = Finite 6673208,
                    xj = Finite 25496701, yj = Finite 6673208\<rparr>] ''100'' = Inr 1"
  by (simp add: get_direction_id_double f64_distance_values)

text \<open>The claim as stated fails: the start is farther from the reference point than the
  end, by the square root of 1 + 1 / 2 ^ 60 against 1, but the sum 1 + 1 / 2 ^ 60 is rounded
  to 1, the computed distances are equal and the result is 1.\<close>

theorem get_direction_id_counterexample:
  "get_direction_id ieee64
      [''100'' \<mapsto> \<lparr>ca_first_t = 7, ca_last_t = 8,
                    xi = Finite 25496700, yi = Finite (6673208 + 1 / 2 ^ 30),
                    xj = Finite 25496700, yj = Finite 6673208\<rparr>] ''100'' = Inr 1
   \<and> (25496699 - 25496700)\<^sup>2 + (6673208 - 6673208)\<^sup>2
       < ((25496699 - 25496700)\<^sup>2 + (6673208 - (6673208 + 1 / 2 ^ 30))\<^sup>2 :: real)"
proof -
  have "get_direction_id ieee64
      [''100'' \<mapsto> \<lparr>ca_first_t = 7, ca_last_t = 8,
                    xi = Finite 25496700, yi = Finite (6673208 + 1 / 2 ^ 30),
                    xj = Finite 25496700, yj = Finite 6673208\<rparr>] ''100'' = Inr 1"
    by (simp only: get_direction_id_ieee64 fun_upd_same option.case line_coords.select_convs
          f64_distance_values f64_gt.simps) simp
  moreover have "(25496699 - 25496700)\<^sup>2 + (6673208 - 6673208)\<^sup>2
       < ((25496699 - 25496700)\<^sup>2 + (6673208 - (6673208 + 1 / 2 ^ 30))\<^sup>2 :: real)"
    by simp
  ultimately show ?thesis by simp
qed

section \<open>What a successful call of \<open>form_new_linename\<close> returns\<close>

lemma form_new_linename_result:
  assumes "form_new_linename raw line_letter dir_id lnames running_n descriptions
             = Inr (linename, desc, lnames', running_n', descriptions')"
  shows "\<exists>route_number parts num0 c0 num c.
           split_route_name raw = Inr (route_number, parts)
           \<and> desc = str_join '' - '' parts
           \<and> redraw lnames line_letter (if length line_letter = 2 then 3 else 4) dir_id c0 (LStr num0)
                 (make_linename line_letter (if length line_letter = 2 then 3 else 4) num0 dir_id)
               = (num, c, linename)
           \<and> lnames' = lnames @ [linename]
           \<and> running_n' = running_n(line_letter \<mapsto> c)
           \<and> descriptions' = descriptions @ [(desc, (num, line_letter), dir_id)]"
  using assms
  unfolding form_new_linename_def Let_def
  by (auto split: sum.splits prod.splits option.splits if_splits)

lemma redraw_free:
  "linename \<notin> set lnames \<Longrightarrow>
   redraw lnames l w d c num linename = (num, c, linename)"
  by (subst redraw.simps) simp

lemma redraw_name:
  "redraw lnames l w d c num name = (num', c', name')
   \<Longrightarrow> name = make_linename l w (lnum_str num) d
   \<Longrightarrow> name' = make_linename l w (lnum_str num') d"
proof (induction lnames l w d c num name rule: redraw.induct)
  case (1 lnames l w d c num name)
  show ?case
  proof (cases "name \<in> set lnames")
    case True
    with "1.prems"(1)
    have "redraw lnames l w d (c + 1) (LInt c) (make_linename l w (str_int c) d) = (num', c', name')"
      by (subst (asm) redraw.simps) simp
    from "1.IH" [OF True this] show ?thesis by simp
  next
    case False
    with "1.prems" show ?thesis by (auto simp: redraw_free)
  qed
qed

lemma length_zfill: "w \<le> length (zfill w s)"
  by (cases s) (auto simp: zfill_def)

lemma form_new_linename_fresh:
  assumes "form_new_linename raw line_letter dir_id lnames running_n descriptions
             = Inr (linename, desc, lnames', running_n', descriptions')"
  shows "lnames' = lnames @ [linename] \<and> linename \<notin> set lnames"
  using form_new_linename_result [OF assms] redraw_fresh by blast

section \<open>Line names are unique\<close>

text \<open>
  Claim C1. In every run of the renaming pass, that is every sequence of lines handed to
  \<open>form_new_linename\<close> one after the other with the list of used names passed along, each
  call that returns appends one name to the list, and the names appended are pairwise
  different and different from every name the list held before. A run that starts with the
  empty list, as \<open>change_line_names\<close> does, therefore ends with a list of pairwise
  different names. The loop that redraws a name in use always ends (\<open>redraw\<close> is a total
  function) and stops at a name that is free.
\<close>

theorem linenames_unique:
  "form_new_linenames ls lnames running_n descriptions = Inr (lnames', running_n', descriptions')
   \<Longrightarrow> \<exists>new. lnames' = lnames @ new \<and> length new = length ls \<and> distinct new
             \<and> set new \<inter> set lnames = {}"
proof (induction ls arbitrary: lnames running_n descriptions)
  case Nil
  then show ?case by simp
next
  case (Cons x ls)
  obtain raw line_letter dir_id where x: "x = (raw, line_letter, dir_id)"
    by (cases x) auto
  from Cons.prems x obtain linename desc lnames1 rn1 ds1 where
    step: "form_new_linename raw line_letter dir_id lnames running_n descriptions
             = Inr (linename, desc, lnames1, rn1, ds1)"
    and rest: "form_new_linenames ls lnames1 rn1 ds1 = Inr (lnames', running_n', descriptions')"
    by (auto split: sum.splits)
  from form_new_linename_fresh [OF step]
  have l1: "lnames1 = lnames @ [linename]" and fresh: "linename \<notin> set lnames" by auto
  from Cons.IH [OF rest] obtain new where
    new: "lnames' = lnames1 @ new" "length new = length ls" "distinct new"
         "set new \<inter> set lnames1 = {}"
    by blast
  have "lnames' = lnames @ (linename # new)" using new(1) l1 by simp
  moreover have "length (linename # new) = length (x # ls)" using new(2) by simp
  moreover have "distinct (linename # new)" using new(3,4) l1 by auto
  moreover have "set (linename # new) \<inter> set lnames = {}" using new(4) l1 fresh by auto
  ultimately show ?case by blast
qed

text \<open>A run with a collision: the third line draws 100 for the letter L, the name L01001
  is in use, and the loop draws 101.\<close>

theorem linenames_unique_witness:
  "map_sum id fst (form_new_linenames
      [(''100 - Aa - Bb'', ''L'', 1), (''Foo - Bar'', ''L'', 1), (''Baz - Qux'', ''L'', 1)]
      [] Map.empty [])
     = Inr [''L01001'', ''L00991'', ''L01011'']
   \<and> distinct [''L01001'', ''L00991'', ''L01011'']"
proof -
  have e: "map_sum id fst (form_new_linenames
      [(''100 - Aa - Bb'', ''L'', 1), (''Foo - Bar'', ''L'', 1), (''Baz - Qux'', ''L'', 1)]
      [] Map.empty [])
     = Inr [''L01001'', ''L00991'', ''L01011'']"
    by code_simp
  then obtain rn ds where f:
    "form_new_linenames
      [(''100 - Aa - Bb'', ''L'', 1), (''Foo - Bar'', ''L'', 1), (''Baz - Qux'', ''L'', 1)]
      [] Map.empty [] = Inr ([''L01001'', ''L00991'', ''L01011''], rn, ds)"
    by (cases "form_new_linenames
      [(''100 - Aa - Bb'', ''L'', 1), (''Foo - Bar'', ''L'', 1), (''Baz - Qux'', ''L'', 1)]
      [] Map.empty []") auto
  from linenames_unique [OF f] e show ?thesis by simp
qed


section \<open>The loop over the history\<close>

lemma scan_descriptions_skip:
  "\<forall>u\<in>set pre. no_match u cleaned reversed route_number line_letter dir_id \<Longrightarrow>
   scan_descriptions (pre @ rest) cleaned reversed route_number line_letter dir_id
     = scan_descriptions rest cleaned reversed route_number line_letter dir_id"
  by (induction pre) (auto simp: no_match_def)

section \<open>The two directions of a route share a number\<close>




section \<open>Fallback numbers\<close>

text \<open>The description of a route name and its reverse, whether it has a number token, and
  whether an earlier line and a later line would be paired by the first two conditions of
  the loop.\<close>

definition cleaned_of :: "string \<Rightarrow> string" where
  "cleaned_of raw = (case split_route_name raw of Inl e \<Rightarrow> [] | Inr (n, parts) \<Rightarrow> str_join '' - '' parts)"

definition reversed_of :: "string \<Rightarrow> string" where
  "reversed_of raw = (case split_route_name raw of Inl e \<Rightarrow> [] | Inr (n, parts) \<Rightarrow> str_join '' - '' (rev parts))"

definition no_route_number :: "string \<Rightarrow> bool" where
  "no_route_number raw = (case split_route_name raw of Inl e \<Rightarrow> False | Inr (n, parts) \<Rightarrow> n = [])"

definition pairs_with :: "string \<times> int \<Rightarrow> string \<times> int \<Rightarrow> bool" where
  "pairs_with earlier later =
     (snd earlier \<noteq> snd later
      \<and> (cleaned_of (fst earlier) = cleaned_of (fst later)
         \<or> cleaned_of (fst earlier) = reversed_of (fst later)))"

fun unpaired :: "(string \<times> int) list \<Rightarrow> bool" where
  "unpaired [] = True"
| "unpaired (x # rest) = (list_all (\<lambda>y. \<not> pairs_with x y) rest \<and> unpaired rest)"

lemma fallback_draw:
  assumes split: "split_route_name raw = Inr ([], parts)"
    and nomatch: "\<forall>u\<in>set descriptions. no_match u (str_join '' - '' parts)
                    (str_join '' - '' (rev parts)) [] line_letter dir_id"
    and c: "c = (case running_n line_letter of None \<Rightarrow> 99 | Some c \<Rightarrow> c)"
    and free: "make_linename line_letter (if length line_letter = 2 then 3 else 4)
                 (str_int c) dir_id \<notin> set lnames"
  shows "form_new_linename raw line_letter dir_id lnames running_n descriptions
           = Inr (make_linename line_letter (if length line_letter = 2 then 3 else 4)
                    (str_int c) dir_id,
                  str_join '' - '' parts,
                  lnames @ [make_linename line_letter (if length line_letter = 2 then 3 else 4)
                              (str_int c) dir_id],
                  running_n(line_letter \<mapsto> c + 1),
                  descriptions @ [(str_join '' - '' parts, (LStr (str_int c), line_letter), dir_id)])"
proof -
  let ?c = "str_join '' - '' parts" and ?r = "str_join '' - '' (rev parts)"
  have "scan_descriptions (descriptions @ []) ?c ?r [] line_letter dir_id
          = scan_descriptions [] ?c ?r [] line_letter dir_id"
    using nomatch by (rule scan_descriptions_skip)
  then have scan: "scan_descriptions descriptions ?c ?r [] line_letter dir_id = Inr None"
    by simp
  have rec: "recombine (LInt c) [] [] = str_int c"
    by (simp add: recombine_def)
  show ?thesis
    unfolding form_new_linename_def Let_def
    using free by (simp add: split scan rec redraw_free c [symmetric])
qed

lemma str_int_not_Nil: "str_int i \<noteq> []"
  by (simp add: str_int_def str_nat_not_Nil)

lemma str_int_dir: "d \<in> {1, 2, 3} \<Longrightarrow> length (str_int d) = 1"
  by (auto simp: str_int_def str_nat.simps)

lemma make_linename_dir_inj:
  assumes "d \<in> {1, 2, 3}" "d' \<in> {1, 2, 3}"
    and "make_linename l w (str_int k) d = make_linename l w (str_int k') d'"
  shows "k = k'"
proof -
  have "length (str_int d) = length (str_int d')"
    using assms(1,2) str_int_dir by metis
  with assms(3) have "zfill w (str_int k) = zfill w (str_int k')"
    by (simp add: make_linename_def)
  then show ?thesis by (rule zfill_str_int_inj)
qed

lemma clean_line_code_Nil: "clean_line_code [] = []"
  by (simp add: clean_line_code_def)

lemma fallback_run:
  assumes "\<forall>x\<in>set rds. no_route_number (fst x) \<and> snd x \<in> {1, 2, 3}"
    and "unpaired rds"
    and "\<forall>u\<in>set descriptions. fst (fst (snd u)) \<noteq> LStr []
           \<and> (\<forall>x\<in>set rds. \<not> (snd (snd u) \<noteq> snd x
                 \<and> (fst u = cleaned_of (fst x) \<or> fst u = reversed_of (fst x))))"
    and "c = (case running_n line_letter of None \<Rightarrow> 99 | Some c \<Rightarrow> c)"
    and "\<forall>k\<ge>c. \<forall>d\<in>{1, 2, 3}. make_linename line_letter
            (if length line_letter = 2 then 3 else 4) (str_int k) d \<notin> set lnames"
  shows "\<exists>lnames' running_n' new.
           form_new_linenames (map (\<lambda>x. (fst x, line_letter, snd x)) rds)
               lnames running_n descriptions
             = Inr (lnames', running_n', descriptions @ new)
           \<and> map (\<lambda>u. fst (snd u)) new
               = map (\<lambda>i. (LStr (str_int (c + int i)), line_letter)) [0..<length rds]"
  using assms
proof (induction rds arbitrary: lnames running_n descriptions c)
  case Nil
  then show ?case by simp
next
  case (Cons x rds)
  let ?w = "if length line_letter = 2 then 3 else 4 :: nat"
  obtain raw d where x: "x = (raw, d)" by (cases x) auto
  from Cons.prems(1) x have nr: "no_route_number raw" and d: "d \<in> {1, 2, 3}" by auto
  from nr obtain parts where split: "split_route_name raw = Inr ([], parts)"
    by (auto simp: no_route_number_def split: sum.splits)
  have cl: "cleaned_of raw = str_join '' - '' parts" "reversed_of raw = str_join '' - '' (rev parts)"
    using split by (simp_all add: cleaned_of_def reversed_of_def)
  have nomatch: "\<forall>u\<in>set descriptions. no_match u (str_join '' - '' parts)
                    (str_join '' - '' (rev parts)) [] line_letter d"
  proof
    fix u assume u: "u \<in> set descriptions"
    obtain ur un ul ud where ue: "u = (ur, (un, ul), ud)" by (cases u) auto
    from Cons.prems(3) u ue x cl have "un \<noteq> LStr []"
      and "\<not> (ud \<noteq> d \<and> (ur = str_join '' - '' parts \<or> ur = str_join '' - '' (rev parts)))"
      by auto
    then show "no_match u (str_join '' - '' parts) (str_join '' - '' (rev parts)) [] line_letter d"
      unfolding ue no_match_def same_stops_def same_endpoints_def same_number_def
      by (auto simp: clean_line_code_Nil)
  qed
  let ?name = "make_linename line_letter ?w (str_int c) d"
  let ?entry = "(str_join '' - '' parts, (LStr (str_int c), line_letter), d)"
  have free: "?name \<notin> set lnames"
    using Cons.prems(5) d by auto
  have step: "form_new_linename raw line_letter d lnames running_n descriptions
           = Inr (?name, str_join '' - '' parts, lnames @ [?name],
                  running_n(line_letter \<mapsto> c + 1), descriptions @ [?entry])"
    using split nomatch Cons.prems(4) free by (rule fallback_draw)
  have p1: "\<forall>y\<in>set rds. no_route_number (fst y) \<and> snd y \<in> {1, 2, 3}"
    using Cons.prems(1) by simp
  have p2: "unpaired rds" using Cons.prems(2) by simp
  have p3: "\<forall>u\<in>set (descriptions @ [?entry]). fst (fst (snd u)) \<noteq> LStr []
           \<and> (\<forall>y\<in>set rds. \<not> (snd (snd u) \<noteq> snd y
                 \<and> (fst u = cleaned_of (fst y) \<or> fst u = reversed_of (fst y))))"
  proof
    fix u assume "u \<in> set (descriptions @ [?entry])"
    then consider "u \<in> set descriptions" | "u = ?entry" by auto
    then show "fst (fst (snd u)) \<noteq> LStr []
           \<and> (\<forall>y\<in>set rds. \<not> (snd (snd u) \<noteq> snd y
                 \<and> (fst u = cleaned_of (fst y) \<or> fst u = reversed_of (fst y))))"
    proof cases
      case 1
      with Cons.prems(3) show ?thesis by auto
    next
      case 2
      from Cons.prems(2) x have "\<forall>y\<in>set rds. \<not> pairs_with (raw, d) y"
        by (simp add: list_all_iff)
      with 2 cl show ?thesis
        by (auto simp: pairs_with_def str_int_not_Nil)
    qed
  qed
  have p4: "c + 1 = (case (running_n(line_letter \<mapsto> c + 1)) line_letter of None \<Rightarrow> 99 | Some c \<Rightarrow> c)"
    by simp
  have p5: "\<forall>k\<ge>c + 1. \<forall>d'\<in>{1, 2, 3}. make_linename line_letter ?w (str_int k) d'
              \<notin> set (lnames @ [?name])"
  proof (intro allI impI ballI)
    fix k d' assume k: "c + 1 \<le> k" and d': "d' \<in> {1, 2, 3::int}"
    have "make_linename line_letter ?w (str_int k) d' \<notin> set lnames"
      using Cons.prems(5) k d' by auto
    moreover have "make_linename line_letter ?w (str_int k) d' \<noteq> ?name"
    proof
      assume "make_linename line_letter ?w (str_int k) d' = ?name"
      from make_linename_dir_inj [OF d' d this] k show False by simp
    qed
    ultimately show "make_linename line_letter ?w (str_int k) d' \<notin> set (lnames @ [?name])"
      by simp
  qed
  have "\<exists>lnames' running_n' new.
           form_new_linenames (map (\<lambda>x. (fst x, line_letter, snd x)) rds)
               (lnames @ [?name]) (running_n(line_letter \<mapsto> c + 1)) (descriptions @ [?entry])
             = Inr (lnames', running_n', (descriptions @ [?entry]) @ new)
           \<and> map (\<lambda>u. fst (snd u)) new
               = map (\<lambda>i. (LStr (str_int (c + 1 + int i)), line_letter)) [0..<length rds]"
    using p1 p2 p3 p4 p5 by (rule Cons.IH)
  then obtain lnames' running_n' new where
    run: "form_new_linenames (map (\<lambda>x. (fst x, line_letter, snd x)) rds)
               (lnames @ [?name]) (running_n(line_letter \<mapsto> c + 1)) ((descriptions @ [?entry]))
             = Inr (lnames', running_n', (descriptions @ [?entry]) @ new)"
    and nums: "map (\<lambda>u. fst (snd u)) new
               = map (\<lambda>i. (LStr (str_int (c + 1 + int i)), line_letter)) [0..<length rds]"
    by blast
  have "form_new_linenames (map (\<lambda>x. (fst x, line_letter, snd x)) (x # rds))
               lnames running_n descriptions
             = Inr (lnames', running_n', descriptions @ (?entry # new))"
    using step run x by simp
  moreover have "map (\<lambda>u. fst (snd u)) (?entry # new)
               = map (\<lambda>i. (LStr (str_int (c + int i)), line_letter)) [0..<length (x # rds)]"
  proof -
    have "map (\<lambda>i. (LStr (str_int (c + int i)), line_letter)) [0..<Suc (length rds)]
        = (LStr (str_int c), line_letter)
          # map (\<lambda>i. (LStr (str_int (c + 1 + int i)), line_letter)) [0..<length rds]"
      by (simp add: upt_conv_Cons map_Suc_upt [symmetric] del: upt_Suc
               add: add.commute add.left_commute)
    with nums show ?thesis by simp
  qed
  ultimately show ?case by blast
qed

text \<open>The numbers and letters stored in the history by a run from the state with which
  \<open>change_line_names\<close> starts.\<close>

definition assigned_numbers :: "(string \<times> string \<times> int) list \<Rightarrow> py_error + (lnum \<times> string) list" where
  "assigned_numbers ls =
     (case form_new_linenames ls [] Map.empty [] of
        Inl e \<Rightarrow> Inl e
      | Inr (lnames, running_n, descriptions) \<Rightarrow> Inr (map (\<lambda>u. fst (snd u)) descriptions))"

text \<open>
  Claim C3, as the code has it. Take any line letter and any run from the start state of
  N lines with that letter, each with no route number token and a direction id of 1, 2 or
  3, and no line paired with an earlier one (same or reverse description with another
  direction id). Every call returns, and the numbers assigned are 99, 100, and so on up
  to 98 + N, in this order: they are strictly increasing, and the first is the start
  value 99 of the counter itself, since the counter is read before it is incremented.
\<close>

theorem fallback_numbers:
  assumes "\<forall>x\<in>set rds. no_route_number (fst x) \<and> snd x \<in> {1, 2, 3}"
    and "unpaired rds"
  shows "assigned_numbers (map (\<lambda>x. (fst x, line_letter, snd x)) rds)
           = Inr (map (\<lambda>i. (LStr (str_int (99 + int i)), line_letter)) [0..<length rds])"
proof -
  have "\<exists>lnames' running_n' new.
           form_new_linenames (map (\<lambda>x. (fst x, line_letter, snd x)) rds) [] Map.empty []
             = Inr (lnames', running_n', [] @ new)
           \<and> map (\<lambda>u. fst (snd u)) new
               = map (\<lambda>i. (LStr (str_int (99 + int i)), line_letter)) [0..<length rds]"
    using assms by (intro fallback_run) simp_all
  then show ?thesis
    by (auto simp: assigned_numbers_def)
qed

theorem fallback_numbers_witness:
  "assigned_numbers [(''Foo - Bar'', ''L'', 1), (''Bar - Foo'', ''L'', 1), (''Baz - Qux'', ''L'', 2)]
     = Inr [(LStr ''99'', ''L''), (LStr ''100'', ''L''), (LStr ''101'', ''L'')]"
proof -
  have h1: "\<forall>x\<in>set [(''Foo - Bar'', 1), (''Bar - Foo'', 1), (''Baz - Qux'', 2::int)].
              no_route_number (fst x) \<and> snd x \<in> {1, 2, 3}"
  proof -
    have "no_route_number ''Foo - Bar''" "no_route_number ''Bar - Foo''" "no_route_number ''Baz - Qux''"
      by code_simp+
    then show ?thesis by simp
  qed
  have h2: "unpaired [(''Foo - Bar'', 1), (''Bar - Foo'', 1), (''Baz - Qux'', 2::int)]"
    by code_simp
  have e: "map (\<lambda>i. (LStr (str_int (99 + int i)), ''L'')) [0..<length [(''Foo - Bar'', 1::int), (''Bar - Foo'', 1), (''Baz - Qux'', 2)]]
            = [(LStr ''99'', ''L''), (LStr ''100'', ''L''), (LStr ''101'', ''L'')]"
    by code_simp
  from fallback_numbers [OF h1 h2, of "''L''"] e show ?thesis by simp
qed

text \<open>The first fallback number is 99, not 100.\<close>

theorem fallback_numbers_counterexample:
  "assigned_numbers [(''Foo - Bar'', ''L'', 1)] = Inr [(LStr ''99'', ''L'')]
   \<and> LStr ''99'' \<noteq> LStr (str_int (99 + 1))"
  by code_simp

section \<open>A route number that is not a number\<close>

text \<open>
  Claim C9. Let the first history entry at which any condition of the loop holds be one
  with the same number and letter but other stops (the fourth condition), let the peeled
  route number have a suffix or be too long for the suffix B, so that the numeric core
  must be incremented, and let \<open>int\<close> fail on the core. Then \<open>form_new_linename\<close> ends with
  the ValueError, which carries the printed route number, core and suffix; no identifier
  is returned.
\<close>

theorem unparsable_number_ValueError:
  assumes split: "split_route_name raw = Inr (route_number, parts)"
    and hist: "descriptions = pre @ used # post"
    and first: "\<forall>u\<in>set pre. no_match u (str_join '' - '' parts) (str_join '' - '' (rev parts))
                   route_number line_letter dir_id"
    and other: "\<not> same_stops used (str_join '' - '' parts) dir_id"
               "\<not> same_stops used (str_join '' - '' (rev parts)) dir_id"
               "\<not> same_endpoints used (str_join '' - '' parts) route_number line_letter dir_id"
    and same: "same_number used route_number line_letter"
    and peel: "remove_last_letters (clean_line_code route_number) = (core, pre_letters, suf_letters)"
    and incr: "suf_letters \<noteq> [] \<or> 4 \<le> length core + length pre_letters"
    and bad: "py_int core = None"
  shows "form_new_linename raw line_letter dir_id lnames running_n descriptions
           = Inl (ValueError route_number core suf_letters)"
proof -
  let ?c = "str_join '' - '' parts" and ?r = "str_join '' - '' (rev parts)"
  have "scan_descriptions descriptions ?c ?r route_number line_letter dir_id
          = scan_descriptions (used # post) ?c ?r route_number line_letter dir_id"
    unfolding hist using first by (rule scan_descriptions_skip)
  also have "\<dots> = Inl (ValueError route_number core suf_letters)"
    using other same peel incr bad by auto
  finally have scan: "scan_descriptions descriptions ?c ?r route_number line_letter dir_id
          = Inl (ValueError route_number core suf_letters)" .
  show ?thesis
    unfolding form_new_linename_def Let_def by (simp add: split scan)
qed

theorem unparsable_number_ValueError_witness:
  "form_new_linename ''1A2B - Pp - Qq'' ''L'' 1 [''L1A2B1''] [''L'' \<mapsto> 99]
      [(''Xx - Yy'', (LStr ''1A2B'', ''L''), 1)] = Inl (ValueError ''1A2B'' ''1A2'' ''B'')"
proof -
  have s: "split_route_name ''1A2B - Pp - Qq'' = Inr (''1A2B'', [''Pp'', ''Qq''])"
    by code_simp
  have h: "[(''Xx - Yy'', (LStr ''1A2B'', ''L''), 1::int)]
             = [] @ (''Xx - Yy'', (LStr ''1A2B'', ''L''), 1) # []"
    by simp
  have p: "\<forall>u\<in>set []. no_match u (str_join '' - '' [''Pp'', ''Qq''])
             (str_join '' - '' (rev [''Pp'', ''Qq''])) ''1A2B'' ''L'' 1"
    by simp
  have o1: "\<not> same_stops (''Xx - Yy'', (LStr ''1A2B'', ''L''), 1) (str_join '' - '' [''Pp'', ''Qq'']) 1"
    by code_simp
  have o2: "\<not> same_stops (''Xx - Yy'', (LStr ''1A2B'', ''L''), 1) (str_join '' - '' (rev [''Pp'', ''Qq''])) 1"
    by code_simp
  have o3: "\<not> same_endpoints (''Xx - Yy'', (LStr ''1A2B'', ''L''), 1) (str_join '' - '' [''Pp'', ''Qq''])
               ''1A2B'' ''L'' 1"
    by code_simp
  have d: "same_number (''Xx - Yy'', (LStr ''1A2B'', ''L''), 1) ''1A2B'' ''L''"
    by code_simp
  have r: "remove_last_letters (clean_line_code ''1A2B'') = (''1A2'', [], ''B'')"
    by code_simp
  have i: "''B'' \<noteq> [] \<or> 4 \<le> length ''1A2'' + length ([] :: string)"
    by simp
  have b: "py_int ''1A2'' = None"
    by code_simp
  show ?thesis
    using s h p o1 o2 o3 d r i b by (rule unparsable_number_ValueError)
qed

section \<open>A first stop of several words\<close>

text \<open>
  Claim C7, as the code has it. When the first segment of the route name contains a digit
  and the second segment has more than one word, the first segment is the route number
  and the head of the remaining parts is: for three or more words, the words after the
  first joined by single spaces if the first word contains a digit, and the second segment
  unchanged otherwise; for exactly two words, the second word if the first contains a
  digit, and the first word alone otherwise. In this last case the second word is dropped.
\<close>

theorem multi_word_origin:
  assumes "re_split_dash [] raw = number # origin # rest"
    and "includes_numbers number"
    and "re_split_space [] origin = w1 # w2 # ws"
  shows "split_route_name raw
           = Inr (number,
                  (if ws \<noteq> [] then (if includes_numbers w1 then str_join '' '' (w2 # ws) else origin)
                   else if includes_numbers w1 then w2 else w1) # rest)"
  using assms by (simp add: split_route_name_def)

theorem multi_word_origin_witness:
  "split_route_name ''12 - 500 Stationname - Boston'' = Inr (''12'', [''Stationname'', ''Boston''])"
proof -
  have a: "re_split_dash [] ''12 - 500 Stationname - Boston'' = [''12'', ''500 Stationname'', ''Boston'']"
    by code_simp
  have b: "includes_numbers ''12''" by code_simp
  have c: "re_split_space [] ''500 Stationname'' = [''500'', ''Stationname'']" by code_simp
  have d: "includes_numbers ''500''" by code_simp
  from multi_word_origin [OF a b c] d show ?thesis by simp
qed

text \<open>The word York of the origin New York is not kept.\<close>

theorem multi_word_origin_counterexample:
  "split_route_name ''12 - New York - Boston'' = Inr (''12'', [''New'', ''Boston''])
   \<and> map_sum id (fst \<circ> snd) (form_new_linename ''12 - New York - Boston'' ''V'' 1 [] Map.empty [])
       = Inr ''New - Boston''"
  by code_simp


section \<open>An area name without a short code\<close>

lemma zone_loop_unknown_name:
  assumes "index + length pre < length geoms"
    and "intersects (xi df, yi df) (geoms ! (index + length pre))
         \<or> intersects (xj df, yj df) (geoms ! (index + length pre))"
    and "(case properties muni_name_col of None \<Rightarrow> None | Some name \<Rightarrow> map_of short_codes name)
           = None"
    and "length muniname
           + length (filter (\<lambda>g. intersects (xi df, yi df) g \<or> intersects (xj df, yj df) g)
                       (take (length pre) (drop index geoms))) < 2"
  shows "zone_loop intersects empty_truth (Some df) geoms muni_name_col short_codes
           (pre @ properties # post) index muniname = Inr ''V''"
  using assms
proof (induction pre arbitrary: index muniname)
  case Nil
  then show ?case by (auto split: option.splits)
next
  case (Cons f pre)
  let ?hit = "\<lambda>g. intersects (xi df, yi df) g \<or> intersects (xj df, yj df) g"
  have idx: "index < length geoms" using Cons.prems(1) by simp
  have dr: "drop index geoms = geoms ! index # drop (Suc index) geoms"
    using idx by (simp add: Cons_nth_drop_Suc)
  have p1': "Suc index + length pre < length geoms" using Cons.prems(1) by simp
  have p2': "intersects (xi df, yi df) (geoms ! (Suc index + length pre))
               \<or> intersects (xj df, yj df) (geoms ! (Suc index + length pre))"
    using Cons.prems(2) by simp
  show ?case
  proof (cases "?hit (geoms ! index)")
    case True
    with Cons.prems(4) dr have m: "muniname = []"
      and rest: "length (filter ?hit (take (length pre) (drop (Suc index) geoms))) = 0"
      by auto
    show ?thesis
    proof (cases "case f muni_name_col of None \<Rightarrow> None | Some name \<Rightarrow> map_of short_codes name")
      case None
      with True idx show ?thesis by (auto split: option.splits)
    next
      case (Some code)
      have "length [code] + length (filter ?hit (take (length pre) (drop (Suc index) geoms))) < 2"
        using rest by simp
      from Cons.IH [OF p1' p2' Cons.prems(3) this]
      have "zone_loop intersects empty_truth (Some df) geoms muni_name_col short_codes
              (pre @ properties # post) (Suc index) [code] = Inr ''V''" .
      with True idx Some m show ?thesis by (auto split: option.splits)
    qed
  next
    case False
    with Cons.prems(4) dr have
      "length muniname + length (filter ?hit (take (length pre) (drop (Suc index) geoms))) < 2"
      by simp
    from Cons.IH [OF p1' p2' Cons.prems(3) this]
    have "zone_loop intersects empty_truth (Some df) geoms muni_name_col short_codes
              (pre @ properties # post) (Suc index) muniname = Inr ''V''" .
    moreover have "length muniname \<noteq> 2" using Cons.prems(4) by simp
    ultimately show ?thesis using False idx by simp
  qed
qed

text \<open>
  Claim C2, as the code has it. Let the agency not be OnniBus, and let an endpoint of the
  line fall in a zone whose area name is missing from the table of short codes (or which
  has no area name), fewer than two of the zones before it containing an endpoint. Then
  the KeyError is caught (line 259), the loop over the zones is left, and
  \<open>get_operator_name\<close> returns the letter V: no error reaches the caller and the line is
  not flagged.
\<close>

theorem unknown_area_name_gives_V:
  assumes "\<not> contains_str ''OnniBus'' (agency_name line)"
    and "df_line_coords (line_id line) = Some df"
    and "features = pre @ properties # post"
    and "length pre < length geoms"
    and "intersects (xi df, yi df) (geoms ! length pre) \<or> intersects (xj df, yj df) (geoms ! length pre)"
    and "(case properties muni_name_col of None \<Rightarrow> None | Some name \<Rightarrow> map_of short_codes name)
           = None"
    and "length (filter (\<lambda>g. intersects (xi df, yi df) g \<or> intersects (xj df, yj df) g)
                   (take (length pre) geoms)) < 2"
  shows "get_operator_name intersects empty_truth df_line_coords line features geoms
           muni_name_col short_codes = Inr ''V''"
proof -
  have "zone_loop intersects empty_truth (Some df) geoms muni_name_col short_codes
           (pre @ properties # post) 0 [] = Inr ''V''"
    using assms(4-7) by (intro zone_loop_unknown_name) simp_all
  with assms(1-3) show ?thesis by (simp add: get_operator_name_def)
qed

theorem unknown_area_name_gives_V_witness:
  "get_operator_name (\<in>) (Inr False)
      [''100'' \<mapsto> \<lparr>ca_first_t = 1, ca_last_t = 2, xi = 0, yi = 0, xj = 1, yj = 1 :: real\<rparr>]
      \<lparr>line_id = ''100'', mode_id = ''d'', route_name = ''12 - Aa - Bb'',
        agency_name = ''Local Co'', description = []\<rparr>
      [[''name'' \<mapsto> ''Lahti''], [''name'' \<mapsto> ''Atlantis''], [''name'' \<mapsto> ''Lahti'']]
      [UNIV, UNIV, UNIV] ''name'' [(''Lahti'', ''L'')]
     = Inr ''V''"
proof -
  let ?df = "\<lparr>ca_first_t = 1, ca_last_t = 2, xi = 0, yi = 0, xj = 1, yj = 1 :: real\<rparr>"
  let ?line = "\<lparr>line_id = ''100'', mode_id = ''d'', route_name = ''12 - Aa - Bb'',
        agency_name = ''Local Co'', description = []\<rparr>"
  have a: "\<not> contains_str ''OnniBus'' (agency_name ?line)" by simp
  have r: "[''100'' \<mapsto> ?df] (line_id ?line) = Some ?df" by simp
  have b: "[[''name'' \<mapsto> ''Lahti''], [''name'' \<mapsto> ''Atlantis''], [''name'' \<mapsto> ''Lahti'']]
             = [[''name'' \<mapsto> ''Lahti'']] @ [''name'' \<mapsto> ''Atlantis''] # [[''name'' \<mapsto> ''Lahti'']]"
    by simp
  have c: "length [[''name'' \<mapsto> ''Lahti'']] < length [UNIV, UNIV, UNIV :: (real \<times> real) set]"
    by simp
  have d: "(xi ?df, yi ?df) \<in> [UNIV, UNIV, UNIV] ! length [[''name'' \<mapsto> ''Lahti'']]
           \<or> (xj ?df, yj ?df) \<in> [UNIV, UNIV, UNIV] ! length [[''name'' \<mapsto> ''Lahti'']]"
    by simp
  have e: "(case [''name'' \<mapsto> ''Atlantis''] ''name'' of None \<Rightarrow> None
            | Some name \<Rightarrow> map_of [(''Lahti'', ''L'')] name) = None"
    by simp
  have f: "length (filter (\<lambda>g. (xi ?df, yi ?df) \<in> g \<or> (xj ?df, yj ?df) \<in> g)
                   (take (length [[''name'' \<mapsto> ''Lahti'']]) [UNIV, UNIV, UNIV])) < 2"
    by simp
  show ?thesis
    using a r b c d e f by (rule unknown_area_name_gives_V)
qed

text \<open>The claim as stated fails: for a line with both endpoints in a zone named Atlantis,
  a name the table does not have, the result is the letter V and not an error.\<close>

theorem unknown_area_name_counterexample:
  "get_operator_name (\<in>) (Inr False)
      [''100'' \<mapsto> \<lparr>ca_first_t = 1, ca_last_t = 2, xi = 0, yi = 0, xj = 1, yj = 1 :: real\<rparr>]
      \<lparr>line_id = ''100'', mode_id = ''d'', route_name = ''12 - Aa - Bb'',
        agency_name = ''Local Co'', description = []\<rparr>
      [[''name'' \<mapsto> ''Atlantis'']] [UNIV] ''name'' [(''Lahti'', ''L'')]
     = Inr ''V''"
  by (simp add: get_operator_name_def)

section \<open>One publish, after the loop\<close>

text \<open>The texts of the descriptions assigned, and the old and the new ids of the lines
  renamed, in the order of the assignments.\<close>

fun description_texts :: "event list \<Rightarrow> string list" where
  "description_texts [] = []"
| "description_texts (SetDescription i t # es) = t # description_texts es"
| "description_texts (e # es) = description_texts es"

fun old_ids :: "event list \<Rightarrow> string list" where
  "old_ids [] = []"
| "old_ids (SetId old new # es) = old # old_ids es"
| "old_ids (e # es) = old_ids es"

fun new_ids :: "event list \<Rightarrow> string list" where
  "new_ids [] = []"
| "new_ids (SetId old new # es) = new # new_ids es"
| "new_ids (e # es) = new_ids es"

lemma length_new_description: "length (new_description desc) \<le> 115"
  by (simp add: new_description_def Let_def)

lemma description_texts_append:
  "description_texts (es @ fs) = description_texts es @ description_texts fs"
  by (induction es rule: description_texts.induct) simp_all

lemma rename_loop_skip:
  assumes "vehicle_ids cfg (mode_id line) = None"
    and "rename_loop intersects empty_truth ops cfg df_line_coords features geoms rest
           lnames running_n descriptions = (events, r)"
  shows "rename_loop intersects empty_truth ops cfg df_line_coords features geoms (line # rest)
           lnames running_n descriptions
         = (events, case r of Inl e \<Rightarrow> Inl e | Inr rest' \<Rightarrow> Inr (line # rest'))"
  using assms by simp

lemma rename_loop_step:
  assumes "vehicle_ids cfg (mode_id line) \<noteq> None"
    and "get_operator_name intersects empty_truth df_line_coords line features geoms
           (muni_col_name cfg) (muni_short_codes cfg) = Inr letter"
    and "get_direction_id ops df_line_coords (line_id line) = Inr d"
    and "form_new_linename (route_name line) letter d lnames running_n descriptions
           = Inr (linename, desc, lnames1, rn1, ds1)"
    and "rename_loop intersects empty_truth ops cfg df_line_coords features geoms rest
           lnames1 rn1 ds1 = (events, r)"
  shows "rename_loop intersects empty_truth ops cfg df_line_coords features geoms (line # rest)
           lnames running_n descriptions
         = (SetId (line_id line) linename # SetDescription linename (new_description desc) # events,
            case r of
              Inl e \<Rightarrow> Inl e
            | Inr rest' \<Rightarrow>
                Inr (line\<lparr>line_id := linename, description := new_description desc\<rparr> # rest'))"
  using assms by simp

lemma rename_loop_fail:
  assumes "vehicle_ids cfg (mode_id line) \<noteq> None"
    and "get_operator_name intersects empty_truth df_line_coords line features geoms
           (muni_col_name cfg) (muni_short_codes cfg) = Inl e
         \<or> (\<exists>letter. get_operator_name intersects empty_truth df_line_coords line features geoms
               (muni_col_name cfg) (muni_short_codes cfg) = Inr letter
             \<and> (get_direction_id ops df_line_coords (line_id line) = Inl e
                \<or> (\<exists>d. get_direction_id ops df_line_coords (line_id line) = Inr d
                     \<and> form_new_linename (route_name line) letter d lnames running_n descriptions
                          = Inl e)))"
  shows "rename_loop intersects empty_truth ops cfg df_line_coords features geoms (line # rest)
           lnames running_n descriptions = ([], Inl e)"
  using assms by (elim disjE exE conjE) simp_all

lemma rename_loop_events:
  assumes "rename_loop intersects empty_truth ops cfg df_line_coords features geoms lines
             lnames running_n descriptions = (events, r)"
  shows "filter is_publish events = []
         \<and> GetNetwork \<notin> set events
         \<and> list_all (\<lambda>t. length t \<le> 115) (description_texts events)
         \<and> (\<forall>lines'. r = Inr lines' \<longrightarrow>
               old_ids events = map line_id (filter (\<lambda>l. vehicle_ids cfg (mode_id l) \<noteq> None) lines)
               \<and> new_ids events = map line_id (filter (\<lambda>l. vehicle_ids cfg (mode_id l) \<noteq> None) lines')
               \<and> description_texts events
                   = map description (filter (\<lambda>l. vehicle_ids cfg (mode_id l) \<noteq> None) lines')
               \<and> filter (\<lambda>l. vehicle_ids cfg (mode_id l) = None) lines'
                   = filter (\<lambda>l. vehicle_ids cfg (mode_id l) = None) lines
               \<and> length lines' = length lines)"
  using assms
proof (induction lines arbitrary: lnames running_n descriptions events r)
  case Nil
  then show ?case by auto
next
  case (Cons line rest)
  let ?go = "\<lambda>l rn ds. rename_loop intersects empty_truth ops cfg df_line_coords features geoms rest
                          l rn ds"
  show ?case
  proof (cases "vehicle_ids cfg (mode_id line) = None")
    case True
    obtain events' r' where rl: "?go lnames running_n descriptions = (events', r')"
      by (cases "?go lnames running_n descriptions") auto
    from rename_loop_skip [OF True rl] Cons.prems have ev: "events = events'"
      and r: "r = (case r' of Inl e \<Rightarrow> Inl e | Inr rest' \<Rightarrow> Inr (line # rest'))"
      by simp_all
    note ih = Cons.IH [OF rl]
    show ?thesis
    proof (cases r')
      case (Inl e)
      with ih ev r show ?thesis by auto
    next
      case (Inr rest')
      with ih ev r True show ?thesis by auto
    qed
  next
    case False
    let ?o = "get_operator_name intersects empty_truth df_line_coords line features geoms
                (muni_col_name cfg) (muni_short_codes cfg)"
    let ?g = "get_direction_id ops df_line_coords (line_id line)"
    have failed: ?thesis if h: "rename_loop intersects empty_truth ops cfg df_line_coords features
        geoms (line # rest) lnames running_n descriptions = ([], Inl e)" for e
    proof -
      from h Cons.prems have "events = []" "r = Inl e"
        by (simp_all del: rename_loop.simps)
      then show ?thesis by simp
    qed
    show ?thesis
    proof (cases ?o)
      case (Inl e)
      then show ?thesis by (intro failed rename_loop_fail [OF False]) simp
    next
      case o: (Inr letter)
      show ?thesis
      proof (cases ?g)
        case (Inl e)
        with o show ?thesis by (intro failed rename_loop_fail [OF False]) simp
      next
        case g: (Inr d)
        show ?thesis
        proof (cases "form_new_linename (route_name line) letter d lnames running_n descriptions")
          case (Inl e)
          with o g show ?thesis by (intro failed rename_loop_fail [OF False]) simp
        next
          case (Inr res)
          then obtain linename desc lnames1 rn1 ds1 where
            f: "form_new_linename (route_name line) letter d lnames running_n descriptions
                  = Inr (linename, desc, lnames1, rn1, ds1)"
            by (cases res) auto
          obtain events' r' where rl: "?go lnames1 rn1 ds1 = (events', r')"
            by (cases "?go lnames1 rn1 ds1") auto
          from rename_loop_step [OF False o g f rl] Cons.prems have
            ev: "events = SetId (line_id line) linename
                            # SetDescription linename (new_description desc) # events'"
            and r: "r = (case r' of Inl e \<Rightarrow> Inl e
                         | Inr rest' \<Rightarrow> Inr (line\<lparr>line_id := linename,
                                                    description := new_description desc\<rparr> # rest'))"
            by simp_all
          note ih = Cons.IH [OF rl]
          show ?thesis
          proof (cases r')
            case (Inl e)
            with ih ev r show ?thesis by (auto simp: length_new_description)
          next
            case (Inr rest')
            with ih ev r False show ?thesis by (auto simp: length_new_description)
          qed
        qed
      qed
    qed
  qed
qed

text \<open>
  Claim C8. What \<open>change_line_names\<close> does starts with \<open>get_network\<close>. The loop assigns
  identifiers and descriptions to the lines of the network object and publishes nothing.
  When the loop ends with an error, at whatever line, the function ends with this error
  and no publish has been made, whatever has been assigned so far. When the loop ends
  without error, one publish is made, as the last thing, with the network that the loop
  leaves: every line of a mode to rename, in the order of the lines, has been given its
  new identifier and its description, and the other lines are unchanged. No description
  assigned is longer than 115 characters.
\<close>

theorem publish_once_after_loop:
  assumes "change_line_names intersects empty_truth ops network cfg df_line_coords features geoms
             = (events, r)"
  shows "(r \<noteq> Inr () \<longrightarrow>
            filter is_publish events = []
            \<and> (\<exists>e. r = Inl e
                  \<and> rename_loop intersects empty_truth ops cfg df_line_coords features geoms
                       network [] Map.empty [] = (tl events, Inl e)))
         \<and> (r = Inr () \<longrightarrow>
              (\<exists>loop network'.
                 events = GetNetwork # loop @ [PublishNetwork network']
                 \<and> filter is_publish loop = []
                 \<and> old_ids loop = map line_id (filter (\<lambda>l. vehicle_ids cfg (mode_id l) \<noteq> None) network)
                 \<and> new_ids loop = map line_id (filter (\<lambda>l. vehicle_ids cfg (mode_id l) \<noteq> None) network')
                 \<and> description_texts loop
                     = map description (filter (\<lambda>l. vehicle_ids cfg (mode_id l) \<noteq> None) network')
                 \<and> filter (\<lambda>l. vehicle_ids cfg (mode_id l) = None) network'
                     = filter (\<lambda>l. vehicle_ids cfg (mode_id l) = None) network
                 \<and> length network' = length network))
         \<and> hd events = GetNetwork
         \<and> list_all (\<lambda>t. length t \<le> 115) (description_texts events)"
proof -
  obtain loop r' where
    rl: "rename_loop intersects empty_truth ops cfg df_line_coords features geoms
           network [] Map.empty [] = (loop, r')"
    by (cases "rename_loop intersects empty_truth ops cfg df_line_coords features geoms
           network [] Map.empty []") auto
  note ev = rename_loop_events [OF rl]
  show ?thesis
  proof (cases r')
    case (Inl e)
    with assms rl have "events = GetNetwork # loop" "r = Inl e"
      by (simp_all add: change_line_names_def)
    with ev rl Inl show ?thesis by simp
  next
    case (Inr network')
    with assms rl have e: "events = GetNetwork # loop @ [PublishNetwork network']" and r: "r = Inr ()"
      by (simp_all add: change_line_names_def)
    have "list_all (\<lambda>t. length t \<le> 115) (description_texts events)"
      using ev unfolding e by (simp add: description_texts_append)
    with ev e r Inr show ?thesis by simp
  qed
qed

text \<open>A run that aborts at its second line, which has no dash, after the first line has been
  renamed in the network object, and a run that completes.\<close>

theorem publish_once_after_loop_witness:
  "change_line_names (\<in>) (Inr False) ieee64
      [\<lparr>line_id = ''100'', mode_id = ''d'', route_name = ''12 - Aa - Bb'',
         agency_name = ''Local Co'', description = []\<rparr>,
       \<lparr>line_id = ''101'', mode_id = ''d'', route_name = ''Helsinki'',
         agency_name = ''Local Co'', description = []\<rparr>]
      \<lparr>vehicle_ids = [''d'' \<mapsto> 1], muni_col_name = ''name'', muni_short_codes = [(''Lahti'', ''L'')]\<rparr>
      [''100'' \<mapsto> \<lparr>ca_first_t = 5, ca_last_t = 5, xi = Finite 0, yi = Finite 0,
                    xj = Finite 0, yj = Finite 0\<rparr>,
       ''101'' \<mapsto> \<lparr>ca_first_t = 5, ca_last_t = 5, xi = Finite 0, yi = Finite 0,
                    xj = Finite 0, yj = Finite 0\<rparr>]
      [] []
   = ([GetNetwork, SetId ''100'' ''V00123'', SetDescription ''V00123'' ''Aa-Bb''], Inl IndexError)
   \<and> change_line_names (\<in>) (Inr False) ieee64
      [\<lparr>line_id = ''100'', mode_id = ''d'', route_name = ''12 - Aa - Bb'',
         agency_name = ''Local Co'', description = []\<rparr>]
      \<lparr>vehicle_ids = [''d'' \<mapsto> 1], muni_col_name = ''name'', muni_short_codes = [(''Lahti'', ''L'')]\<rparr>
      [''100'' \<mapsto> \<lparr>ca_first_t = 5, ca_last_t = 5, xi = Finite 0, yi = Finite 0,
                    xj = Finite 0, yj = Finite 0\<rparr>]
      [] []
   = ([GetNetwork, SetId ''100'' ''V00123'', SetDescription ''V00123'' ''Aa-Bb'',
       PublishNetwork [\<lparr>line_id = ''V00123'', mode_id = ''d'', route_name = ''12 - Aa - Bb'',
                         agency_name = ''Local Co'', description = ''Aa-Bb''\<rparr>]],
      Inr ())"
proof -
  let ?cfg = "\<lparr>vehicle_ids = [''d'' \<mapsto> 1], muni_col_name = ''name'', muni_short_codes = [(''Lahti'', ''L'')]\<rparr>"
  let ?row = "\<lparr>ca_first_t = 5, ca_last_t = 5, xi = Finite 0, yi = Finite 0,
                xj = Finite 0, yj = Finite 0\<rparr>"
  let ?l1 = "\<lparr>line_id = ''100'', mode_id = ''d'', route_name = ''12 - Aa - Bb'',
             agency_name = ''Local Co'', description = []\<rparr>"
  let ?l2 = "\<lparr>line_id = ''101'', mode_id = ''d'', route_name = ''Helsinki'',
             agency_name = ''Local Co'', description = []\<rparr>"
  let ?l1' = "\<lparr>line_id = ''V00123'', mode_id = ''d'', route_name = ''12 - Aa - Bb'',
             agency_name = ''Local Co'', description = ''Aa-Bb''\<rparr>"
  let ?geoms = "[] :: (f64 \<times> f64) set list"
  let ?df2 = "[''100'' \<mapsto> ?row, ''101'' \<mapsto> ?row]"
  let ?df1 = "[''100'' \<mapsto> ?row]"
  have m: "vehicle_ids ?cfg (mode_id ?l1) \<noteq> None" "vehicle_ids ?cfg (mode_id ?l2) \<noteq> None"
    by simp_all
  have d: "get_direction_id ieee64 ?df2 (line_id ?l1) = Inr 3"
    "get_direction_id ieee64 ?df2 (line_id ?l2) = Inr 3"
    "get_direction_id ieee64 ?df1 (line_id ?l1) = Inr 3"
    by (simp_all add: get_direction_id_def)
  have o: "get_operator_name (\<in>) (Inr False) ?df2 ?l1 [] ?geoms (muni_col_name ?cfg) (muni_short_codes ?cfg) = Inr ''V''"
    "get_operator_name (\<in>) (Inr False) ?df2 ?l2 [] ?geoms (muni_col_name ?cfg) (muni_short_codes ?cfg) = Inr ''V''"
    "get_operator_name (\<in>) (Inr False) ?df1 ?l1 [] ?geoms (muni_col_name ?cfg) (muni_short_codes ?cfg) = Inr ''V''"
    by (simp_all add: get_operator_name_def)
  have "map_sum id (\<lambda>r. (fst r, fst (snd r), fst (snd (snd r))))
              (form_new_linename ''12 - Aa - Bb'' ''V'' 3 [] Map.empty [])
            = Inr (''V00123'', ''Aa - Bb'', [''V00123''])"
    by code_simp
  then obtain rn ds where "form_new_linename ''12 - Aa - Bb'' ''V'' 3 [] Map.empty []
            = Inr (''V00123'', ''Aa - Bb'', [''V00123''], rn, ds)"
    by (cases "form_new_linename ''12 - Aa - Bb'' ''V'' 3 [] Map.empty []") auto
  then have f1: "form_new_linename (route_name ?l1) ''V'' 3 [] Map.empty []
            = Inr (''V00123'', ''Aa - Bb'', [''V00123''], rn, ds)"
    by simp
  have "split_route_name ''Helsinki'' = Inl IndexError" by code_simp
  then have f2: "form_new_linename (route_name ?l2) ''V'' 3 [''V00123''] rn ds = Inl IndexError"
    by (simp add: form_new_linename_def)
  have nd: "new_description ''Aa - Bb'' = ''Aa-Bb''" by code_simp
  have e2: "rename_loop (\<in>) (Inr False) ieee64 ?cfg ?df2 [] ?geoms [?l2] [''V00123''] rn ds
              = ([], Inl IndexError)"
    using o(2) d(2) f2 by (intro rename_loop_fail [OF m(2)]) simp
  have e0: "rename_loop (\<in>) (Inr False) ieee64 ?cfg ?df1 [] ?geoms [] [''V00123''] rn ds
              = ([], Inr [])"
    by simp
  have a: "rename_loop (\<in>) (Inr False) ieee64 ?cfg ?df2 [] ?geoms [?l1, ?l2] [] Map.empty []
             = ([SetId ''100'' ''V00123'', SetDescription ''V00123'' ''Aa-Bb''], Inl IndexError)"
    using rename_loop_step [OF m(1) o(1) d(1) f1 e2] by (simp add: nd del: rename_loop.simps)
  have b: "rename_loop (\<in>) (Inr False) ieee64 ?cfg ?df1 [] ?geoms [?l1] [] Map.empty []
             = ([SetId ''100'' ''V00123'', SetDescription ''V00123'' ''Aa-Bb''], Inr [?l1'])"
    using rename_loop_step [OF m(1) o(3) d(3) f1 e0] by (simp add: nd del: rename_loop.simps)
  have c: "change_line_names (\<in>) (Inr False) ieee64 [?l1, ?l2] ?cfg ?df2 [] ?geoms
             = ([GetNetwork, SetId ''100'' ''V00123'', SetDescription ''V00123'' ''Aa-Bb''],
                Inl IndexError)"
    by (simp add: change_line_names_def a del: rename_loop.simps)
  have c': "change_line_names (\<in>) (Inr False) ieee64 [?l1] ?cfg ?df1 [] ?geoms
             = ([GetNetwork, SetId ''100'' ''V00123'', SetDescription ''V00123'' ''Aa-Bb'',
                 PublishNetwork [?l1']], Inr ())"
    by (simp add: change_line_names_def b del: rename_loop.simps)
  from publish_once_after_loop [OF c] c c' show ?thesis
    by (simp del: rename_loop.simps)
qed

end
